theory Spec2Isabelle
  imports Complex_Main "HOL-Library.Multiset" "HOL-Library.Sublist" "HOL-Library.Option_ord"
begin

section \<open>The schema (src/main.py, lines 23--99)\<close>

text \<open>
  Every table is the list of its rows. A column declared without \<open>nullable=False\<close>
  may hold NULL and is an \<open>option\<close>; a primary key is never NULL. A row of an
  association table with a NULL in it joins with nothing, so the association tables
  keep only their pairs of keys.
\<close>

record Book =
  Book_id :: int
  Book_title :: "string option"
  Book_download_count :: "int option"

record Author =
  Author_id :: int
  Author_name :: "string option"
  Author_birth_year :: "int option"
  Author_death_year :: "int option"

record Subject =
  Subject_id :: int
  Subject_name :: "string option"

record Bookshelf =
  Bookshelf_id :: int
  Bookshelf_name :: "string option"

record Language =
  Language_id :: int
  Language_code :: "string option"

record Format =
  Format_id :: int
  Format_mime_type :: "string option"
  Format_url :: "string option"
  Format_book_id :: "int option"

record database =
  books_book :: "Book list"
  books_author :: "Author list"
  books_subject :: "Subject list"
  books_bookshelf :: "Bookshelf list"
  books_language :: "Language list"
  books_format :: "Format list"
  books_book_authors :: "(int \<times> int) list"
  books_book_subjects :: "(int \<times> int) list"
  books_book_bookshelves :: "(int \<times> int) list"
  books_book_languages :: "(int \<times> int) list"

text \<open>\<open>Book.id\<close> is the primary key of \<open>books_book\<close>: no two rows share it.\<close>

definition primary_key :: "database \<Rightarrow> bool" where
  "primary_key db \<longleftrightarrow> distinct (map Book_id (books_book db))"

section \<open>The response models (lines 102--134)\<close>

record AuthorInfo =
  AuthorInfo_name :: string
  AuthorInfo_birth_year :: "int option"
  AuthorInfo_death_year :: "int option"

record DownloadLink =
  DownloadLink_mime_type :: string
  DownloadLink_url :: string

record BookResponse =
  BookResponse_id :: int
  BookResponse_title :: string
  BookResponse_authors :: "AuthorInfo list"
  BookResponse_genres :: "string list"
  BookResponse_languages :: "string list"
  BookResponse_subjects :: "string list"
  BookResponse_bookshelves :: "string list"
  BookResponse_download_links :: "DownloadLink list"

record BooksListResponse =
  BooksListResponse_count :: int
  BooksListResponse_results :: "BookResponse list"
  BooksListResponse_page :: int
  BooksListResponse_total_pages :: int

text \<open>
  The ways a request ends without a response body of the model:
  \<^item> \<open>RequestValidationError\<close>: the framework refuses \<open>page\<close> or \<open>page_size\<close>
    against \<open>Query(1, ge=1)\<close> and \<open>Query(25, ge=1, le=100)\<close> before the handler runs;
  \<^item> \<open>ValueError\<close>: \<open>int(bid)\<close> on line 212 raises, and nothing catches it
    (the \<open>try\<close> of line 197 has a \<open>finally\<close> only);
  \<^item> \<open>DataError\<close>: the store refuses the query of line 293, whose OFFSET it holds in
    a signed 64-bit integer, for an offset of \<open>2 ^ 63\<close> or more (\<open>page\<close> has no
    upper bound);
  \<^item> \<open>ValidationError\<close>: a response model is given NULL for a field declared \<open>str\<close>.
\<close>

datatype exn = RequestValidationError | ValueError | DataError | ValidationError

text \<open>
  The status line the hosting framework sends for an outcome: 200 for a response, 422
  for a request it refused itself, 500 for an exception that leaves the handler and is
  not an \<open>HTTPException\<close> (the handler raises none).
\<close>

fun status_code :: "exn + BooksListResponse \<Rightarrow> nat" where
  "status_code (Inr r) = 200"
| "status_code (Inl RequestValidationError) = 422"
| "status_code (Inl ValueError) = 500"
| "status_code (Inl DataError) = 500"
| "status_code (Inl ValidationError) = 500"

definition client_error :: "exn + BooksListResponse \<Rightarrow> bool" where
  "client_error outcome \<longleftrightarrow> 400 \<le> status_code outcome \<and> status_code outcome < 500"

section \<open>Strings\<close>

text \<open>
  A character is a code point below 256, and a string holds no NUL character, which the
  store takes in no text. \<open>isspace\<close> lists the characters among them that Python's
  \<open>str.strip()\<close> and \<open>int()\<close> skip as whitespace, U+0085 and U+00A0 with the
  ASCII ones. \<open>lower\<close> maps A--Z to a--z and leaves every other character alone:
  how the store folds letters beyond ASCII is its locale's matter.
\<close>

definition isspace :: "char \<Rightarrow> bool" where
  "isspace c \<longleftrightarrow> c \<in> {CHR 0x09, CHR 0x0A, CHR 0x0B, CHR 0x0C, CHR 0x0D,
                     CHR 0x1C, CHR 0x1D, CHR 0x1E, CHR 0x1F, CHR 0x20,
                     CHR 0x85, CHR 0xA0}"

definition strip :: "string \<Rightarrow> string" where
  "strip s = rev (dropWhile isspace (rev (dropWhile isspace s)))"

fun split :: "char \<Rightarrow> string \<Rightarrow> string list" where
  "split sep [] = [[]]"
| "split sep (c # cs) =
     (if c = sep then [] # split sep cs
      else (case split sep cs of [] \<Rightarrow> [[c]] | w # ws \<Rightarrow> (c # w) # ws))"

definition lower_char :: "char \<Rightarrow> char" where
  "lower_char c =
     (case map_of (zip ''ABCDEFGHIJKLMNOPQRSTUVWXYZ'' ''abcdefghijklmnopqrstuvwxyz'') c of
        None \<Rightarrow> c
      | Some d \<Rightarrow> d)"

definition lower :: "string \<Rightarrow> string" where
  "lower s = map lower_char s"

text \<open>Lines 161--164. \<open>not value\<close> holds of \<open>None\<close> and of the empty string.\<close>

definition parse_comma_separated :: "string option \<Rightarrow> string list" where
  "parse_comma_separated value =
     (case value of
        None \<Rightarrow> []
      | Some s \<Rightarrow> if s = [] then [] else [strip v. v \<leftarrow> split CHR '','' s, strip v \<noteq> []])"

text \<open>
  Python's \<open>int(s)\<close> on a string, \<open>None\<close> for the \<open>ValueError\<close>: surrounding
  whitespace, an optional sign, decimal digits, single underscores between digits, and
  no more than 4300 digits (the interpreter's default limit on the conversion).
\<close>

definition digit_of :: "char \<Rightarrow> int option" where
  "digit_of c = map_of (zip ''0123456789'' [0, 1, 2, 3, 4, 5, 6, 7, 8, 9]) c"

fun int_digits :: "int \<Rightarrow> string \<Rightarrow> int option"
  and int_after_underscore :: "int \<Rightarrow> string \<Rightarrow> int option" where
  "int_digits acc [] = Some acc"
| "int_digits acc (c # cs) =
     (case digit_of c of
        Some v \<Rightarrow> int_digits (10 * acc + v) cs
      | None \<Rightarrow> if c = CHR ''_'' then int_after_underscore acc cs else None)"
| "int_after_underscore acc [] = None"
| "int_after_underscore acc (c # cs) =
     (case digit_of c of
        Some v \<Rightarrow> int_digits (10 * acc + v) cs
      | None \<Rightarrow> None)"

definition int_unsigned :: "string \<Rightarrow> int option" where
  "int_unsigned s =
     (if 4300 < length (filter (\<lambda>c. c \<noteq> CHR ''_'') s) then None
      else int_after_underscore 0 s)"

definition py_int :: "string \<Rightarrow> int option" where
  "py_int s =
     (case strip s of
        [] \<Rightarrow> None
      | c # cs \<Rightarrow>
          if c = CHR ''-'' then map_option uminus (int_unsigned cs)
          else if c = CHR ''+'' then int_unsigned cs
          else int_unsigned (c # cs))"

section \<open>The store's SQL\<close>

text \<open>
  \<open>like pattern s\<close> is SQL's \<open>s LIKE pattern\<close>: \<open>%\<close> stands for any run of
  characters, \<open>_\<close> for any one character, and a backslash makes the character after it
  stand for itself (the escape character of the PostgreSQL store that
  \<open>DATABASE_URL\<close> names). The handler's patterns end in \<open>%\<close>, so none ends in a
  lone backslash.
\<close>

fun like :: "string \<Rightarrow> string \<Rightarrow> bool" where
  "like [] s = (s = [])"
| "like (p # ps) [] = (p = CHR ''%'' \<and> like ps [])"
| "like (p # ps) (c # cs) =
     (if p = CHR ''%'' then like ps (c # cs) \<or> like (p # ps) cs
      else if p = CHR ''_'' then like ps cs
      else if p = CHR 0x5C then (case ps of [] \<Rightarrow> False | e # ps' \<Rightarrow> c = e \<and> like ps' cs)
      else p = c \<and> like ps cs)"

text \<open>
  A condition of a WHERE clause is true, false or NULL (\<open>None\<close>); \<open>sql_or\<close> and
  \<open>sql_and\<close> are SQL's OR and AND over a list of operands.
\<close>

definition sql_or :: "bool option list \<Rightarrow> bool option" where
  "sql_or bs =
     (if Some True \<in> set bs then Some True else if None \<in> set bs then None else Some False)"

definition sql_and :: "bool option list \<Rightarrow> bool option" where
  "sql_and bs =
     (if Some False \<in> set bs then Some False else if None \<in> set bs then None else Some True)"

text \<open>\<open>func.lower(column).like(func.lower(pattern))\<close>\<close>

definition lower_like :: "string option \<Rightarrow> string \<Rightarrow> bool option" where
  "lower_like column pattern =
     (case column of None \<Rightarrow> None | Some s \<Rightarrow> Some (like (lower pattern) (lower s)))"

text \<open>
  The conditions the handler appends to \<open>filters\<close>, with the argument each is built
  from:
  \<^item> \<open>Book_id_in ids\<close>: \<open>Book.id.in_(book_ids)\<close>;
  \<^item> \<open>Language_code_in codes\<close>: \<open>Language.code.in_(languages)\<close>;
  \<^item> \<open>Format_mime_type_in ms\<close>: \<open>Format.mime_type.in_(mime_types)\<close>;
  \<^item> \<open>Book_subjects_any pattern\<close>: \<open>Book.subjects.any(Subject.id.in_(subject_match))\<close>,
    \<open>subject_match\<close> the subquery of lines 235--237 for \<open>pattern\<close>;
  \<^item> \<open>Book_bookshelves_any pattern\<close>: the same for lines 240--242 and 246;
  \<^item> \<open>Book_authors_any pattern\<close>: line 260;
  \<^item> \<open>Book_title_like pattern\<close>: line 273;
  \<^item> \<open>or_clause\<close>, \<open>and_clause\<close>: \<open>or_(*conditions)\<close>, \<open>and_(*filters)\<close>.
\<close>

datatype clause =
    Book_id_in "int list"
  | Language_code_in "string list"
  | Format_mime_type_in "string list"
  | Book_subjects_any string
  | Book_bookshelves_any string
  | Book_authors_any string
  | Book_title_like string
  | or_clause "clause list"
  | and_clause "clause list"

text \<open>
  A row of the FROM clause: the book, and the language and the format joined to it when
  the query joins them. \<open>holds db row c\<close> is the value of the condition on the row.
  \<open>x IN (...)\<close> is NULL for a NULL \<open>x\<close>, and false for every other \<open>x\<close> when
  the list is empty; EXISTS is never NULL.
\<close>

type_synonym joined_row = "Book \<times> Language option \<times> Format option"

definition subject_match :: "database \<Rightarrow> string \<Rightarrow> int list" where
  "subject_match db pattern =
     [Subject_id s. s \<leftarrow> books_subject db, lower_like (Subject_name s) pattern = Some True]"

definition bookshelf_match :: "database \<Rightarrow> string \<Rightarrow> int list" where
  "bookshelf_match db pattern =
     [Bookshelf_id s. s \<leftarrow> books_bookshelf db, lower_like (Bookshelf_name s) pattern = Some True]"

fun holds :: "database \<Rightarrow> joined_row \<Rightarrow> clause \<Rightarrow> bool option" where
  "holds db (b, l, f) (Book_id_in ids) = Some (Book_id b \<in> set ids)"
| "holds db (b, l, f) (Language_code_in codes) =
     (case l of
        None \<Rightarrow> None
      | Some lang \<Rightarrow>
          (case Language_code lang of None \<Rightarrow> None | Some c \<Rightarrow> Some (c \<in> set codes)))"
| "holds db (b, l, f) (Format_mime_type_in ms) =
     (case f of
        None \<Rightarrow> None
      | Some fmt \<Rightarrow>
          (case Format_mime_type fmt of None \<Rightarrow> None | Some m \<Rightarrow> Some (m \<in> set ms)))"
| "holds db (b, l, f) (Book_subjects_any pattern) =
     Some (\<exists>(bid, sid) \<in> set (books_book_subjects db). bid = Book_id b \<and>
             (\<exists>s \<in> set (books_subject db). Subject_id s = sid \<and>
                Subject_id s \<in> set (subject_match db pattern)))"
| "holds db (b, l, f) (Book_bookshelves_any pattern) =
     Some (\<exists>(bid, sid) \<in> set (books_book_bookshelves db). bid = Book_id b \<and>
             (\<exists>s \<in> set (books_bookshelf db). Bookshelf_id s = sid \<and>
                Bookshelf_id s \<in> set (bookshelf_match db pattern)))"
| "holds db (b, l, f) (Book_authors_any pattern) =
     Some (\<exists>(bid, aid) \<in> set (books_book_authors db). bid = Book_id b \<and>
             (\<exists>a \<in> set (books_author db). Author_id a = aid \<and>
                lower_like (Author_name a) pattern = Some True))"
| "holds db (b, l, f) (Book_title_like pattern) = lower_like (Book_title b) pattern"
| "holds db (b, l, f) (or_clause cs) = sql_or (map (holds db (b, l, f)) cs)"
| "holds db (b, l, f) (and_clause cs) = sql_and (map (holds db (b, l, f)) cs)"

section \<open>The handler \<open>get_books\<close> (lines 176--329)\<close>

record request =
  book_id :: "string option"
  language :: "string option"
  mime_type :: "string option"
  topic :: "string option"
  author :: "string option"
  title :: "string option"
  page :: int
  page_size :: int

text \<open>\<open>if book_id:\<close> and its siblings: a parameter that is given and is not empty.\<close>

definition truthy :: "string option \<Rightarrow> bool" where
  "truthy v \<longleftrightarrow> v \<noteq> None \<and> v \<noteq> Some []"

definition wrap_pattern :: "string \<Rightarrow> string" where
  "wrap_pattern t = ''%'' @ t @ ''%''"

text \<open>Lines 211--213.\<close>

definition book_id_filter :: "string option \<Rightarrow> exn + clause list" where
  "book_id_filter v =
     (if truthy v then
        (case those (map py_int (parse_comma_separated v)) of
           None \<Rightarrow> Inl ValueError
         | Some book_ids \<Rightarrow> Inr [Book_id_in book_ids])
      else Inr [])"

text \<open>Lines 216--219 and 222--225; the joins are in \<open>build_query\<close>.\<close>

definition language_filter :: "string option \<Rightarrow> clause list" where
  "language_filter v = (if truthy v then [Language_code_in (parse_comma_separated v)] else [])"

definition mime_type_filter :: "string option \<Rightarrow> clause list" where
  "mime_type_filter v =
     (if truthy v then [Format_mime_type_in (parse_comma_separated v)] else [])"

text \<open>Lines 228--250.\<close>

definition topic_filter :: "string option \<Rightarrow> clause list" where
  "topic_filter v =
     (if truthy v then
        (let topic_conditions =
               [or_clause [Book_subjects_any (wrap_pattern t),
                           Book_bookshelves_any (wrap_pattern t)].
                  t \<leftarrow> parse_comma_separated v]
         in if topic_conditions \<noteq> [] then [or_clause topic_conditions] else [])
      else [])"

text \<open>Lines 253--264.\<close>

definition author_filter :: "string option \<Rightarrow> clause list" where
  "author_filter v =
     (if truthy v then
        (let author_conditions =
               [Book_authors_any (wrap_pattern a). a \<leftarrow> parse_comma_separated v]
         in if author_conditions \<noteq> [] then [or_clause author_conditions] else [])
      else [])"

text \<open>Lines 267--276.\<close>

definition title_filter :: "string option \<Rightarrow> clause list" where
  "title_filter v =
     (if truthy v then
        (let title_conditions =
               [Book_title_like (wrap_pattern t). t \<leftarrow> parse_comma_separated v]
         in if title_conditions \<noteq> [] then [or_clause title_conditions] else [])
      else [])"

text \<open>
  The query as the handler has built it at line 280: which relations it joined, and the
  list \<open>filters\<close>.
\<close>

record query =
  join_languages :: bool
  join_formats :: bool
  filters :: "clause list"

definition build_query :: "request \<Rightarrow> exn + query" where
  "build_query rq =
     (case book_id_filter (book_id rq) of
        Inl e \<Rightarrow> Inl e
      | Inr by_id \<Rightarrow>
          Inr \<lparr>join_languages = truthy (language rq),
               join_formats = truthy (mime_type rq),
               filters = by_id @ language_filter (language rq) @ mime_type_filter (mime_type rq)
                         @ topic_filter (topic rq) @ author_filter (author rq)
                         @ title_filter (title rq)\<rparr>)"

text \<open>
  \<open>query.join(Book.languages)\<close> is an inner join through \<open>books_book_languages\<close>,
  \<open>query.join(Book.formats)\<close> an inner join on \<open>Format.book_id\<close>.
\<close>

definition languages_of :: "database \<Rightarrow> Book \<Rightarrow> Language list" where
  "languages_of db b =
     [l. (bid, lid) \<leftarrow> books_book_languages db, bid = Book_id b,
         l \<leftarrow> books_language db, Language_id l = lid]"

definition formats_of :: "database \<Rightarrow> Book \<Rightarrow> Format list" where
  "formats_of db b = [f. f \<leftarrow> books_format db, Format_book_id f = Some (Book_id b)]"

definition from_rows :: "database \<Rightarrow> query \<Rightarrow> joined_row list" where
  "from_rows db q =
     [(b, l, f).
        b \<leftarrow> books_book db,
        l \<leftarrow> (if join_languages q then map Some (languages_of db b) else [None]),
        f \<leftarrow> (if join_formats q then map Some (formats_of db b) else [None])]"

text \<open>Lines 279--280: WHERE keeps the rows on which the condition is true.\<close>

definition where_rows :: "database \<Rightarrow> query \<Rightarrow> joined_row list" where
  "where_rows db q =
     (if filters q \<noteq> [] then
        [row. row \<leftarrow> from_rows db q, holds db row (and_clause (filters q)) = Some True]
      else from_rows db q)"

text \<open>Line 283: SELECT DISTINCT over the columns of \<open>Book\<close>.\<close>

definition distinct_books :: "database \<Rightarrow> query \<Rightarrow> Book list" where
  "distinct_books db q = remdups (map fst (where_rows db q))"

text \<open>Line 286.\<close>

definition total_count :: "database \<Rightarrow> query \<Rightarrow> int" where
  "total_count db q = int (length (distinct_books db q))"

text \<open>
  Line 289, \<open>ORDER BY download_count DESC\<close>. SQL fixes the order of the answer up to
  the rows with equal keys only, so the store may answer with any arrangement of the
  rows that descends in the key; \<open>order_by_desc\<close> lists them all. A NULL key sorts as
  larger than every number (PostgreSQL), so it comes first.
\<close>

definition desc_before :: "Book \<Rightarrow> Book \<Rightarrow> bool" where
  "desc_before a b =
     (case Book_download_count a of
        None \<Rightarrow> True
      | Some x \<Rightarrow> (case Book_download_count b of None \<Rightarrow> False | Some y \<Rightarrow> y \<le> x))"

fun insert_everywhere :: "'a \<Rightarrow> 'a list \<Rightarrow> 'a list list" where
  "insert_everywhere x [] = [[x]]"
| "insert_everywhere x (y # ys) = (x # y # ys) # map ((#) y) (insert_everywhere x ys)"

fun permutations :: "'a list \<Rightarrow> 'a list list" where
  "permutations [] = [[]]"
| "permutations (x # xs) = concat (map (insert_everywhere x) (permutations xs))"

definition order_by_desc :: "Book list \<Rightarrow> Book list list" where
  "order_by_desc rows = filter (sorted_wrt desc_before) (permutations rows)"

text \<open>Lines 292--293: \<open>offset\<close> and \<open>limit\<close>.\<close>

definition paginate :: "int \<Rightarrow> int \<Rightarrow> 'a list \<Rightarrow> 'a list" where
  "paginate pg sz xs = (let offset = (pg - 1) * sz in take (nat sz) (drop (nat offset) xs))"

text \<open>
  Lines 296--317. A collection of a book holds the rows its relationship loads through
  the association table, each row once, in the order in which the join over the
  association rows delivers them. A field declared \<open>str\<close> refuses NULL, and
  \<open>collect\<close> stops at the first refusal, as the exception does.
\<close>

definition loaded_once :: "'a list \<Rightarrow> 'a list" where
  "loaded_once rows = rev (remdups (rev rows))"

definition str_field :: "string option \<Rightarrow> exn + string" where
  "str_field v = (case v of None \<Rightarrow> Inl ValidationError | Some s \<Rightarrow> Inr s)"

fun collect :: "(exn + 'a) list \<Rightarrow> exn + 'a list" where
  "collect [] = Inr []"
| "collect (x # xs) =
     (case x of
        Inl e \<Rightarrow> Inl e
      | Inr y \<Rightarrow> (case collect xs of Inl e \<Rightarrow> Inl e | Inr ys \<Rightarrow> Inr (y # ys)))"

definition authors_of :: "database \<Rightarrow> Book \<Rightarrow> Author list" where
  "authors_of db b =
     loaded_once
       [a. (bid, aid) \<leftarrow> books_book_authors db, bid = Book_id b,
           a \<leftarrow> books_author db, Author_id a = aid]"

definition subjects_of :: "database \<Rightarrow> Book \<Rightarrow> Subject list" where
  "subjects_of db b =
     loaded_once
       [s. (bid, sid) \<leftarrow> books_book_subjects db, bid = Book_id b,
           s \<leftarrow> books_subject db, Subject_id s = sid]"

definition bookshelves_of :: "database \<Rightarrow> Book \<Rightarrow> Bookshelf list" where
  "bookshelves_of db b =
     loaded_once
       [s. (bid, sid) \<leftarrow> books_book_bookshelves db, bid = Book_id b,
           s \<leftarrow> books_bookshelf db, Bookshelf_id s = sid]"

definition loaded_languages :: "database \<Rightarrow> Book \<Rightarrow> Language list" where
  "loaded_languages db b = loaded_once (languages_of db b)"

definition author_info :: "Author \<Rightarrow> exn + AuthorInfo" where
  "author_info a =
     (case str_field (Author_name a) of
        Inl e \<Rightarrow> Inl e
      | Inr n \<Rightarrow> Inr \<lparr>AuthorInfo_name = n,
                      AuthorInfo_birth_year = Author_birth_year a,
                      AuthorInfo_death_year = Author_death_year a\<rparr>)"

definition download_link :: "Format \<Rightarrow> exn + DownloadLink" where
  "download_link fmt =
     (case str_field (Format_mime_type fmt) of
        Inl e \<Rightarrow> Inl e
      | Inr m \<Rightarrow>
          (case str_field (Format_url fmt) of
             Inl e \<Rightarrow> Inl e
           | Inr u \<Rightarrow> Inr \<lparr>DownloadLink_mime_type = m, DownloadLink_url = u\<rparr>))"

text \<open>\<open>book.title or "Unknown"\<close>: \<open>None\<close> and the empty string are both falsy.\<close>

definition title_or_unknown :: "string option \<Rightarrow> string" where
  "title_or_unknown t = (case t of None \<Rightarrow> ''Unknown'' | Some s \<Rightarrow> if s = [] then ''Unknown'' else s)"

definition book_response :: "database \<Rightarrow> Book \<Rightarrow> exn + BookResponse" where
  "book_response db b =
     (case collect (map author_info (authors_of db b)) of
        Inl e \<Rightarrow> Inl e
      | Inr authors \<Rightarrow>
     (case collect (map (str_field \<circ> Subject_name) (subjects_of db b)) of
        Inl e \<Rightarrow> Inl e
      | Inr genres \<Rightarrow>
     (case collect (map (str_field \<circ> Language_code) (loaded_languages db b)) of
        Inl e \<Rightarrow> Inl e
      | Inr languages \<Rightarrow>
     (case collect (map (str_field \<circ> Bookshelf_name) (bookshelves_of db b)) of
        Inl e \<Rightarrow> Inl e
      | Inr bookshelves \<Rightarrow>
     (case collect (map download_link (formats_of db b)) of
        Inl e \<Rightarrow> Inl e
      | Inr download_links \<Rightarrow>
          Inr \<lparr>BookResponse_id = Book_id b,
               BookResponse_title = title_or_unknown (Book_title b),
               BookResponse_authors = authors,
               BookResponse_genres = genres,
               BookResponse_languages = languages,
               BookResponse_subjects = genres,
               BookResponse_bookshelves = bookshelves,
               BookResponse_download_links = download_links\<rparr>)))))"

text \<open>Lines 292--326, from the rows in the order the store answered in.\<close>

definition respond :: "database \<Rightarrow> request \<Rightarrow> int \<Rightarrow> Book list \<Rightarrow> exn + BooksListResponse" where
  "respond db rq counted ordered =
     (case collect (map (book_response db) (paginate (page rq) (page_size rq) ordered)) of
        Inl e \<Rightarrow> Inl e
      | Inr results \<Rightarrow>
          Inr \<lparr>BooksListResponse_count = counted,
               BooksListResponse_results = results,
               BooksListResponse_page = page rq,
               BooksListResponse_total_pages = (counted + page_size rq - 1) div page_size rq\<rparr>)"

text \<open>
  The outcomes a request can have on a store: one for each answer the store may give to
  the ordered query.
\<close>

definition get_books :: "database \<Rightarrow> request \<Rightarrow> (exn + BooksListResponse) set" where
  "get_books db rq =
     (if page rq < 1 \<or> page_size rq < 1 \<or> 100 < page_size rq then {Inl RequestValidationError}
      else
        (case build_query rq of
           Inl e \<Rightarrow> {Inl e}
         | Inr q \<Rightarrow>
             if 2 ^ 63 \<le> (page rq - 1) * page_size rq then {Inl DataError}
             else (\<lambda>ordered. respond db rq (total_count db q) ordered)
                    ` set (order_by_desc (distinct_books db q))))"

section \<open>The filters read book by book\<close>

text \<open>
  What the conditions of \<open>filters\<close> ask of a book, one predicate for each parameter:
  within a parameter any one of its tokens is enough, and \<open>satisfies\<close> asks for all
  six at once. A parameter that the handler does not turn into a condition asks nothing.
\<close>

definition by_book_id :: "string option \<Rightarrow> Book \<Rightarrow> bool" where
  "by_book_id v b \<longleftrightarrow>
     (truthy v \<longrightarrow> (\<exists>t \<in> set (parse_comma_separated v). py_int t = Some (Book_id b)))"

definition by_language :: "database \<Rightarrow> string option \<Rightarrow> Book \<Rightarrow> bool" where
  "by_language db v b \<longleftrightarrow>
     (truthy v \<longrightarrow>
        (\<exists>l \<in> set (languages_of db b). \<exists>c \<in> set (parse_comma_separated v).
           Language_code l = Some c))"

definition by_mime_type :: "database \<Rightarrow> string option \<Rightarrow> Book \<Rightarrow> bool" where
  "by_mime_type db v b \<longleftrightarrow>
     (truthy v \<longrightarrow>
        (\<exists>f \<in> set (formats_of db b). \<exists>m \<in> set (parse_comma_separated v).
           Format_mime_type f = Some m))"

definition topic_like :: "database \<Rightarrow> string \<Rightarrow> Book \<Rightarrow> bool" where
  "topic_like db t b \<longleftrightarrow>
     (\<exists>s \<in> set (subjects_of db b). lower_like (Subject_name s) (wrap_pattern t) = Some True)
     \<or> (\<exists>s \<in> set (bookshelves_of db b).
           lower_like (Bookshelf_name s) (wrap_pattern t) = Some True)"

definition by_topic :: "database \<Rightarrow> string option \<Rightarrow> Book \<Rightarrow> bool" where
  "by_topic db v b \<longleftrightarrow>
     (parse_comma_separated v \<noteq> [] \<longrightarrow>
        (\<exists>t \<in> set (parse_comma_separated v). topic_like db t b))"

definition by_author :: "database \<Rightarrow> string option \<Rightarrow> Book \<Rightarrow> bool" where
  "by_author db v b \<longleftrightarrow>
     (parse_comma_separated v \<noteq> [] \<longrightarrow>
        (\<exists>t \<in> set (parse_comma_separated v). \<exists>a \<in> set (authors_of db b).
           lower_like (Author_name a) (wrap_pattern t) = Some True))"

definition by_title :: "string option \<Rightarrow> Book \<Rightarrow> bool" where
  "by_title v b \<longleftrightarrow>
     (parse_comma_separated v \<noteq> [] \<longrightarrow>
        (\<exists>t \<in> set (parse_comma_separated v).
           lower_like (Book_title b) (wrap_pattern t) = Some True))"

definition satisfies :: "database \<Rightarrow> request \<Rightarrow> Book \<Rightarrow> bool" where
  "satisfies db rq b \<longleftrightarrow>
     by_book_id (book_id rq) b \<and> by_language db (language rq) b
     \<and> by_mime_type db (mime_type rq) b \<and> by_topic db (topic rq) b
     \<and> by_author db (author rq) b \<and> by_title (title rq) b"

text \<open>
  The topic filter in the specification's words: the name contains the token as a
  substring, letter case aside. \<open>no_wildcards\<close> holds of a token that has none of the
  three characters LIKE reads specially.
\<close>

definition contains_ci :: "string \<Rightarrow> string option \<Rightarrow> bool" where
  "contains_ci t name \<longleftrightarrow>
     (case name of None \<Rightarrow> False | Some n \<Rightarrow> sublist (lower t) (lower n))"

definition spec_topic :: "database \<Rightarrow> string \<Rightarrow> Book \<Rightarrow> bool" where
  "spec_topic db t b \<longleftrightarrow>
     (\<exists>s \<in> set (subjects_of db b). contains_ci t (Subject_name s))
     \<or> (\<exists>s \<in> set (bookshelves_of db b). contains_ci t (Bookshelf_name s))"

definition no_wildcards :: "string \<Rightarrow> bool" where
  "no_wildcards t \<longleftrightarrow> CHR ''%'' \<notin> set t \<and> CHR ''_'' \<notin> set t \<and> CHR 0x5C \<notin> set t"

section \<open>A sample store\<close>

text \<open>
  Three books: Moby Dick (100 downloads, English, one subject, one author, one format),
  War and Peace (50 downloads, French, on one bookshelf) and a book with the empty title
  (50 downloads, associated with French first and English second).
\<close>

definition moby_dick_row :: Book where
  "moby_dick_row =
     \<lparr>Book_id = 1, Book_title = Some ''Moby Dick'', Book_download_count = Some 100\<rparr>"

definition war_and_peace_row :: Book where
  "war_and_peace_row =
     \<lparr>Book_id = 2, Book_title = Some ''War and Peace'', Book_download_count = Some 50\<rparr>"

definition untitled_row :: Book where
  "untitled_row = \<lparr>Book_id = 3, Book_title = Some [], Book_download_count = Some 50\<rparr>"

definition sample_db :: database where
  "sample_db =
     \<lparr>books_book = [moby_dick_row, war_and_peace_row, untitled_row],
      books_author =
        [\<lparr>Author_id = 1, Author_name = Some ''Melville, Herman'',
          Author_birth_year = Some 1819, Author_death_year = Some 1891\<rparr>],
      books_subject = [\<lparr>Subject_id = 1, Subject_name = Some ''Whaling -- Fiction''\<rparr>],
      books_bookshelf = [\<lparr>Bookshelf_id = 1, Bookshelf_name = Some ''Best Books Ever''\<rparr>],
      books_language =
        [\<lparr>Language_id = 1, Language_code = Some ''en''\<rparr>,
         \<lparr>Language_id = 2, Language_code = Some ''fr''\<rparr>],
      books_format =
        [\<lparr>Format_id = 1, Format_mime_type = Some ''text/plain'',
          Format_url = Some ''http://a/1.txt'', Format_book_id = Some 1\<rparr>],
      books_book_authors = [(1, 1)],
      books_book_subjects = [(1, 1)],
      books_book_bookshelves = [(2, 1)],
      books_book_languages = [(1, 1), (2, 2), (3, 2), (3, 1)]\<rparr>"

definition no_filters :: request where
  "no_filters =
     \<lparr>book_id = None, language = None, mime_type = None, topic = None, author = None,
      title = None, page = 1, page_size = 25\<rparr>"

definition moby_dick :: BookResponse where
  "moby_dick =
     \<lparr>BookResponse_id = 1, BookResponse_title = ''Moby Dick'',
      BookResponse_authors =
        [\<lparr>AuthorInfo_name = ''Melville, Herman'', AuthorInfo_birth_year = Some 1819,
          AuthorInfo_death_year = Some 1891\<rparr>],
      BookResponse_genres = [''Whaling -- Fiction''],
      BookResponse_languages = [''en''],
      BookResponse_subjects = [''Whaling -- Fiction''],
      BookResponse_bookshelves = [],
      BookResponse_download_links =
        [\<lparr>DownloadLink_mime_type = ''text/plain'', DownloadLink_url = ''http://a/1.txt''\<rparr>]\<rparr>"

definition war_and_peace :: BookResponse where
  "war_and_peace =
     \<lparr>BookResponse_id = 2, BookResponse_title = ''War and Peace'',
      BookResponse_authors = [], BookResponse_genres = [],
      BookResponse_languages = [''fr''], BookResponse_subjects = [],
      BookResponse_bookshelves = [''Best Books Ever''],
      BookResponse_download_links = []\<rparr>"

definition untitled :: BookResponse where
  "untitled =
     \<lparr>BookResponse_id = 3, BookResponse_title = ''Unknown'',
      BookResponse_authors = [], BookResponse_genres = [],
      BookResponse_languages = [''fr'', ''en''], BookResponse_subjects = [],
      BookResponse_bookshelves = [], BookResponse_download_links = []\<rparr>"

text \<open>\<open>?language=en,fr&page_size=2\<close>, and one of the two answers to it.\<close>

definition en_fr_by_two :: request where
  "en_fr_by_two = no_filters\<lparr>language := Some ''en,fr'', page_size := 2\<rparr>"

definition en_fr_first_page :: BooksListResponse where
  "en_fr_first_page =
     \<lparr>BooksListResponse_count = 3, BooksListResponse_results = [moby_dick, untitled],
      BooksListResponse_page = 1, BooksListResponse_total_pages = 2\<rparr>"

definition en_fr_query :: query where
  "en_fr_query =
     \<lparr>join_languages = True, join_formats = False,
      filters = [Language_code_in [''en'', ''fr'']]\<rparr>"

definition en_query :: query where
  "en_query =
     \<lparr>join_languages = True, join_formats = False, filters = [Language_code_in [''en'']]\<rparr>"

definition no_query :: query where
  "no_query = \<lparr>join_languages = False, join_formats = False, filters = []\<rparr>"

text \<open>The request without parameters, and its two answers.\<close>

definition all_books :: "BookResponse list \<Rightarrow> BooksListResponse" where
  "all_books rs =
     \<lparr>BooksListResponse_count = 3, BooksListResponse_results = rs,
      BooksListResponse_page = 1, BooksListResponse_total_pages = 1\<rparr>"

text \<open>The answer with no book in it.\<close>

definition nothing_found :: BooksListResponse where
  "nothing_found =
     \<lparr>BooksListResponse_count = 0, BooksListResponse_results = [],
      BooksListResponse_page = 1, BooksListResponse_total_pages = 0\<rparr>"

text \<open>\<open>?language=,\<close>: no parameter of it has a token.\<close>

definition comma_language :: request where
  "comma_language = no_filters\<lparr>language := Some '',''\<rparr>"

text \<open>
  More requests on the sample store, the queries the handler builds for some of them,
  and answers to them: \<open>?book_id=1,abc\<close>, \<open>?language=EN\<close>,
  \<open>?topic=whales, BEST\<close>, \<open>?language=en\<close> on one page and by one book a
  page, and the request without parameters by one book a page.
\<close>

definition one_and_abc :: request where
  "one_and_abc = no_filters\<lparr>book_id := Some ''1,abc''\<rparr>"

definition upper_query :: query where
  "upper_query =
     \<lparr>join_languages = True, join_formats = False, filters = [Language_code_in [''EN'']]\<rparr>"

definition best_topic :: request where
  "best_topic = no_filters\<lparr>topic := Some ''whales, BEST''\<rparr>"

definition best_query :: query where
  "best_query =
     \<lparr>join_languages = False, join_formats = False,
      filters =
        [or_clause
           [or_clause [Book_subjects_any ''%whales%'', Book_bookshelves_any ''%whales%''],
            or_clause [Book_subjects_any ''%BEST%'', Book_bookshelves_any ''%BEST%'']]]\<rparr>"

definition en_only :: request where
  "en_only = no_filters\<lparr>language := Some ''en''\<rparr>"

definition en_books :: BooksListResponse where
  "en_books =
     \<lparr>BooksListResponse_count = 2, BooksListResponse_results = [moby_dick, untitled],
      BooksListResponse_page = 1, BooksListResponse_total_pages = 1\<rparr>"

definition en_by_one :: request where
  "en_by_one = no_filters\<lparr>language := Some ''en'', page_size := 1\<rparr>"

definition en_page :: "nat \<Rightarrow> BooksListResponse" where
  "en_page p =
     \<lparr>BooksListResponse_count = 2,
      BooksListResponse_results = (if p = 1 then [moby_dick] else [untitled]),
      BooksListResponse_page = int p, BooksListResponse_total_pages = 2\<rparr>"

definition by_one :: "int \<Rightarrow> request" where
  "by_one p = no_filters\<lparr>page := p, page_size := 1\<rparr>"

definition one_of_three :: "int \<Rightarrow> BookResponse \<Rightarrow> BooksListResponse" where
  "one_of_three p b =
     \<lparr>BooksListResponse_count = 3, BooksListResponse_results = [b],
      BooksListResponse_page = p, BooksListResponse_total_pages = 3\<rparr>"

section \<open>Basic facts\<close>

lemma sample_primary_key: "primary_key sample_db"
  by code_simp

lemma en_fr_outcome: "Inr en_fr_first_page \<in> get_books sample_db en_fr_by_two"
  by code_simp

lemma en_fr_build: "build_query en_fr_by_two = Inr en_fr_query"
  by code_simp

lemma no_filters_build: "build_query no_filters = Inr no_query"
  by code_simp

lemma no_filters_outcomes:
  "get_books sample_db no_filters =
     {Inr (all_books [moby_dick, war_and_peace, untitled]),
      Inr (all_books [moby_dick, untitled, war_and_peace])}"
  by code_simp

subsection \<open>The answers of the ordered query\<close>

lemma mset_insert_everywhere:
  "zs \<in> set (insert_everywhere x ys) \<Longrightarrow> mset zs = add_mset x (mset ys)"
  by (induction ys arbitrary: zs) auto

lemma insert_everywhere_mem: "l1 @ x # l2 \<in> set (insert_everywhere x (l1 @ l2))"
proof (induction l1)
  case Nil
  show ?case by (cases l2) simp_all
next
  case (Cons a l1)
  then show ?case by simp
qed

lemma permutations_sound: "zs \<in> set (permutations xs) \<Longrightarrow> mset zs = mset xs"
  by (induction xs arbitrary: zs) (auto dest: mset_insert_everywhere)

lemma permutations_complete: "mset zs = mset xs \<Longrightarrow> zs \<in> set (permutations xs)"
proof (induction xs arbitrary: zs)
  case Nil
  then show ?case by simp
next
  case (Cons x xs)
  from Cons.prems have "x \<in> set zs"
    by (metis list.set_intros(1) mset_eq_setD)
  then obtain l1 l2 where zs: "zs = l1 @ x # l2"
    by (auto dest: split_list)
  with Cons.prems have "mset (l1 @ l2) = mset xs" by simp
  then have "l1 @ l2 \<in> set (permutations xs)" by (rule Cons.IH)
  then show ?case
    unfolding zs using insert_everywhere_mem [of l1 x l2] by auto
qed

lemma order_by_desc_iff:
  "ordered \<in> set (order_by_desc rows) \<longleftrightarrow>
     mset ordered = mset rows \<and> sorted_wrt desc_before ordered"
  using permutations_sound permutations_complete by (auto simp: order_by_desc_def)

subsection \<open>What a response says about the run that produced it\<close>

lemma collect_map_Inr:
  "collect (map f xs) = Inr ys \<Longrightarrow> list_all2 (\<lambda>x y. f x = Inr y) xs ys"
  by (induction xs arbitrary: ys) (auto split: sum.splits)

lemma book_response_Inr:
  "book_response db b = Inr br \<Longrightarrow>
     BookResponse_id br = Book_id b \<and> BookResponse_title br = title_or_unknown (Book_title b)"
  by (auto simp: book_response_def split: sum.splits)

lemma respond_Inr:
  "respond db rq n ordered = Inr r \<Longrightarrow>
     BooksListResponse_count r = n \<and> BooksListResponse_page r = page rq \<and>
     BooksListResponse_total_pages r = (n + page_size rq - 1) div page_size rq \<and>
     list_all2 (\<lambda>b br. book_response db b = Inr br)
       (paginate (page rq) (page_size rq) ordered) (BooksListResponse_results r)"
  by (auto simp: respond_def split: sum.splits dest: collect_map_Inr)

lemma get_books_Inr:
  assumes "Inr r \<in> get_books db rq"
  obtains q ordered where
    "1 \<le> page rq" "1 \<le> page_size rq" "page_size rq \<le> 100"
    "(page rq - 1) * page_size rq < 2 ^ 63"
    "build_query rq = Inr q"
    "mset ordered = mset (distinct_books db q)" "sorted_wrt desc_before ordered"
    "respond db rq (total_count db q) ordered = Inr r"
  using assms
  by (auto simp: get_books_def order_by_desc_iff split: if_splits sum.splits)

subsection \<open>Rounding up\<close>

lemma ceil_div_aux:
  fixes n d :: int
  assumes "0 < d"
  shows "(n + d - 1) div d = - ((- n) div d)"
proof -
  define q where "q = n div d"
  define r where "r = n mod d"
  have n: "n = d * q + r" and r: "0 \<le> r" "r < d"
    using assms by (simp_all add: q_def r_def)
  show ?thesis
  proof (cases "r = 0")
    case True
    have a: "d * q + d - 1 = (d - 1) + d * q" by simp
    have "(d * q + d - 1) div d = q"
      unfolding a using assms by (simp add: div_pos_pos_trivial)
    moreover have "(- (d * q)) div d = - q"
      using assms by (metis mult_minus_right nonzero_mult_div_cancel_left less_irrefl)
    ultimately show ?thesis using True n by simp
  next
    case False
    have a: "d * q + r + d - 1 = (r - 1) + d * (q + 1)" by (simp add: algebra_simps)
    have "(d * q + r + d - 1) div d = q + 1"
      unfolding a using assms r False by (simp add: div_pos_pos_trivial)
    moreover have b: "- (d * q + r) = (d - r) + d * (- q - 1)" by (simp add: algebra_simps)
    have "(- (d * q + r)) div d = - q - 1"
      unfolding b using assms r False by (simp add: div_pos_pos_trivial)
    ultimately show ?thesis using n by simp
  qed
qed

lemma ceil_div:
  "0 < (d::int) \<Longrightarrow> (n + d - 1) div d = \<lceil>real_of_int n / real_of_int d\<rceil>"
  by (simp add: ceil_div_aux ceiling_divide_eq_div)

subsection \<open>Conditions, row by row and book by book\<close>

lemma sql_and_True: "sql_and bs = Some True \<longleftrightarrow> (\<forall>b \<in> set bs. b = Some True)"
proof -
  have "b = Some True" if "b \<noteq> Some False" "b \<noteq> None" for b :: "bool option"
    using that by (cases b) auto
  then show ?thesis
    unfolding sql_and_def by (metis option.distinct(1) option.inject)
qed

lemma sql_or_True: "sql_or bs = Some True \<longleftrightarrow> (\<exists>b \<in> set bs. b = Some True)"
  by (simp add: sql_or_def)

lemma from_rows_iff:
  "(b, l, f) \<in> set (from_rows db q) \<longleftrightarrow>
     b \<in> set (books_book db)
     \<and> (if join_languages q then \<exists>x \<in> set (languages_of db b). l = Some x else l = None)
     \<and> (if join_formats q then \<exists>x \<in> set (formats_of db b). f = Some x else f = None)"
  by (auto simp: from_rows_def)

lemma where_rows_iff:
  "row \<in> set (where_rows db q) \<longleftrightarrow>
     row \<in> set (from_rows db q) \<and> (\<forall>c \<in> set (filters q). holds db row c = Some True)"
proof (cases row)
  case (fields b l f)
  show ?thesis
    unfolding fields where_rows_def by (simp add: sql_and_True)
qed

lemma those_map_set:
  "those (map f xs) = Some ys \<Longrightarrow> y \<in> set ys \<longleftrightarrow> (\<exists>x \<in> set xs. f x = Some y)"
  by (induction xs arbitrary: ys) (auto split: option.splits)

lemma set_loaded_once [simp]: "set (loaded_once rows) = set rows"
  by (simp add: loaded_once_def)

lemma set_authors_of:
  "a \<in> set (authors_of db b) \<longleftrightarrow>
     a \<in> set (books_author db) \<and> (Book_id b, Author_id a) \<in> set (books_book_authors db)"
  by (auto simp: authors_of_def)

lemma set_subjects_of:
  "s \<in> set (subjects_of db b) \<longleftrightarrow>
     s \<in> set (books_subject db) \<and> (Book_id b, Subject_id s) \<in> set (books_book_subjects db)"
  by (auto simp: subjects_of_def)

lemma set_bookshelves_of:
  "s \<in> set (bookshelves_of db b) \<longleftrightarrow>
     s \<in> set (books_bookshelf db)
     \<and> (Book_id b, Bookshelf_id s) \<in> set (books_book_bookshelves db)"
  by (auto simp: bookshelves_of_def)

lemma subjects_any_iff:
  "holds db (b, l, f) (Book_subjects_any p) = Some True \<longleftrightarrow>
     (\<exists>s \<in> set (subjects_of db b). lower_like (Subject_name s) p = Some True)"
proof
  assume "holds db (b, l, f) (Book_subjects_any p) = Some True"
  then obtain sid s s' where "(Book_id b, sid) \<in> set (books_book_subjects db)"
    "s \<in> set (books_subject db)" "Subject_id s = sid"
    "s' \<in> set (books_subject db)" "Subject_id s' = Subject_id s"
    "lower_like (Subject_name s') p = Some True"
    by (auto simp: subject_match_def)
  then have "s' \<in> set (subjects_of db b)"
    by (simp add: set_subjects_of)
  with \<open>lower_like (Subject_name s') p = Some True\<close>
  show "\<exists>s \<in> set (subjects_of db b). lower_like (Subject_name s) p = Some True" ..
next
  assume "\<exists>s \<in> set (subjects_of db b). lower_like (Subject_name s) p = Some True"
  then obtain s where s: "s \<in> set (books_subject db)"
    "(Book_id b, Subject_id s) \<in> set (books_book_subjects db)"
    "lower_like (Subject_name s) p = Some True"
    by (auto simp: set_subjects_of)
  then have "Subject_id s \<in> set (subject_match db p)"
    by (auto simp: subject_match_def)
  with s show "holds db (b, l, f) (Book_subjects_any p) = Some True"
    by (auto intro!: bexI [of _ "(Book_id b, Subject_id s)"] bexI [of _ s])
qed

lemma bookshelves_any_iff:
  "holds db (b, l, f) (Book_bookshelves_any p) = Some True \<longleftrightarrow>
     (\<exists>s \<in> set (bookshelves_of db b). lower_like (Bookshelf_name s) p = Some True)"
proof
  assume "holds db (b, l, f) (Book_bookshelves_any p) = Some True"
  then obtain sid s s' where "(Book_id b, sid) \<in> set (books_book_bookshelves db)"
    "s \<in> set (books_bookshelf db)" "Bookshelf_id s = sid"
    "s' \<in> set (books_bookshelf db)" "Bookshelf_id s' = Bookshelf_id s"
    "lower_like (Bookshelf_name s') p = Some True"
    by (auto simp: bookshelf_match_def)
  then have "s' \<in> set (bookshelves_of db b)"
    by (simp add: set_bookshelves_of)
  with \<open>lower_like (Bookshelf_name s') p = Some True\<close>
  show "\<exists>s \<in> set (bookshelves_of db b). lower_like (Bookshelf_name s) p = Some True" ..
next
  assume "\<exists>s \<in> set (bookshelves_of db b). lower_like (Bookshelf_name s) p = Some True"
  then obtain s where s: "s \<in> set (books_bookshelf db)"
    "(Book_id b, Bookshelf_id s) \<in> set (books_book_bookshelves db)"
    "lower_like (Bookshelf_name s) p = Some True"
    by (auto simp: set_bookshelves_of)
  then have "Bookshelf_id s \<in> set (bookshelf_match db p)"
    by (auto simp: bookshelf_match_def)
  with s show "holds db (b, l, f) (Book_bookshelves_any p) = Some True"
    by (auto intro!: bexI [of _ "(Book_id b, Bookshelf_id s)"] bexI [of _ s])
qed

lemma authors_any_iff:
  "holds db (b, l, f) (Book_authors_any p) = Some True \<longleftrightarrow>
     (\<exists>a \<in> set (authors_of db b). lower_like (Author_name a) p = Some True)"
proof
  assume "holds db (b, l, f) (Book_authors_any p) = Some True"
  then obtain a where "(Book_id b, Author_id a) \<in> set (books_book_authors db)"
    "a \<in> set (books_author db)" "lower_like (Author_name a) p = Some True"
    by auto
  then show "\<exists>a \<in> set (authors_of db b). lower_like (Author_name a) p = Some True"
    by (auto simp: set_authors_of)
next
  assume "\<exists>a \<in> set (authors_of db b). lower_like (Author_name a) p = Some True"
  then obtain a where a: "a \<in> set (books_author db)"
    "(Book_id b, Author_id a) \<in> set (books_book_authors db)"
    "lower_like (Author_name a) p = Some True"
    by (auto simp: set_authors_of)
  then show "holds db (b, l, f) (Book_authors_any p) = Some True"
    by (auto intro!: bexI [of _ "(Book_id b, Author_id a)"] bexI [of _ a])
qed

lemma parse_falsy: "\<not> truthy v \<Longrightarrow> parse_comma_separated v = []"
  by (auto simp: truthy_def parse_comma_separated_def split: option.splits)

lemma book_id_clause:
  assumes "book_id_filter v = Inr cs"
  shows "(\<forall>c \<in> set cs. holds db (b, l, f) c = Some True) \<longleftrightarrow> by_book_id v b"
proof (cases "truthy v")
  case True
  with assms obtain ids where ids: "those (map py_int (parse_comma_separated v)) = Some ids"
    and cs: "cs = [Book_id_in ids]"
    by (auto simp: book_id_filter_def split: option.splits)
  show ?thesis
    unfolding cs by_book_id_def using True those_map_set [OF ids] by simp
next
  case False
  with assms have "cs = []" by (simp add: book_id_filter_def)
  with False show ?thesis by (simp add: by_book_id_def)
qed

lemma language_clause:
  "(\<forall>c \<in> set (language_filter v). holds db (b, l, f) c = Some True) \<longleftrightarrow>
     (truthy v \<longrightarrow> (\<exists>x c. l = Some x \<and> Language_code x = Some c
                         \<and> c \<in> set (parse_comma_separated v)))"
  by (cases l) (auto simp: language_filter_def split: option.splits)

lemma mime_type_clause:
  "(\<forall>c \<in> set (mime_type_filter v). holds db (b, l, f) c = Some True) \<longleftrightarrow>
     (truthy v \<longrightarrow> (\<exists>x m. f = Some x \<and> Format_mime_type x = Some m
                         \<and> m \<in> set (parse_comma_separated v)))"
  by (cases f) (auto simp: mime_type_filter_def split: option.splits)

lemma topic_token_iff:
  "holds db (b, l, f)
     (or_clause [Book_subjects_any (wrap_pattern t), Book_bookshelves_any (wrap_pattern t)])
     = Some True \<longleftrightarrow> topic_like db t b"
proof -
  have "holds db (b, l, f)
          (or_clause [Book_subjects_any (wrap_pattern t), Book_bookshelves_any (wrap_pattern t)])
        = Some True \<longleftrightarrow>
        holds db (b, l, f) (Book_subjects_any (wrap_pattern t)) = Some True
        \<or> holds db (b, l, f) (Book_bookshelves_any (wrap_pattern t)) = Some True"
    by (auto simp add: sql_or_True simp del: holds.simps(4) holds.simps(5))
  then show ?thesis
    unfolding subjects_any_iff bookshelves_any_iff topic_like_def .
qed

lemma or_clause_map:
  "holds db row (or_clause (map g ts)) = Some True \<longleftrightarrow>
     (\<exists>t \<in> set ts. holds db row (g t) = Some True)"
proof -
  have "holds db row (or_clause cs) = sql_or (map (holds db row) cs)" for cs
    by (cases row) simp
  then show ?thesis
    by (force simp: sql_or_True)
qed

lemma topic_clause:
  "(\<forall>c \<in> set (topic_filter v). holds db (b, l, f) c = Some True) \<longleftrightarrow> by_topic db v b"
proof (cases "parse_comma_separated v = []")
  case True
  then show ?thesis by (simp add: topic_filter_def by_topic_def)
next
  case False
  then have "truthy v" using parse_falsy by blast
  with False have "topic_filter v =
      [or_clause (map (\<lambda>t. or_clause [Book_subjects_any (wrap_pattern t),
                                       Book_bookshelves_any (wrap_pattern t)])
                    (parse_comma_separated v))]"
    by (simp add: topic_filter_def)
  then show ?thesis
    using False by (simp add: or_clause_map topic_token_iff by_topic_def del: holds.simps)
qed

lemma author_clause:
  "(\<forall>c \<in> set (author_filter v). holds db (b, l, f) c = Some True) \<longleftrightarrow> by_author db v b"
proof (cases "parse_comma_separated v = []")
  case True
  then show ?thesis by (simp add: author_filter_def by_author_def)
next
  case False
  then have "truthy v" using parse_falsy by blast
  with False have "author_filter v =
      [or_clause (map (\<lambda>a. Book_authors_any (wrap_pattern a)) (parse_comma_separated v))]"
    by (simp add: author_filter_def)
  then show ?thesis
    using False by (simp add: or_clause_map authors_any_iff by_author_def del: holds.simps)
qed

lemma title_clause:
  "(\<forall>c \<in> set (title_filter v). holds db (b, l, f) c = Some True) \<longleftrightarrow> by_title v b"
proof (cases "parse_comma_separated v = []")
  case True
  then show ?thesis by (simp add: title_filter_def by_title_def)
next
  case False
  then have "truthy v" using parse_falsy by blast
  with False have "title_filter v =
      [or_clause (map (\<lambda>t. Book_title_like (wrap_pattern t)) (parse_comma_separated v))]"
    by (simp add: title_filter_def)
  then show ?thesis
    using False by (simp add: or_clause_map by_title_def del: holds.simps(1-6) holds.simps(8-9))
qed

lemma build_query_Inr:
  assumes "build_query rq = Inr q"
  obtains by_id where "book_id_filter (book_id rq) = Inr by_id"
    "join_languages q = truthy (language rq)" "join_formats q = truthy (mime_type rq)"
    "filters q = by_id @ language_filter (language rq) @ mime_type_filter (mime_type rq)
                 @ topic_filter (topic rq) @ author_filter (author rq)
                 @ title_filter (title rq)"
  using assms by (auto simp: build_query_def split: sum.splits)

lemma where_rows_satisfies:
  assumes "build_query rq = Inr q"
  shows "(b, l, f) \<in> set (where_rows db q) \<longleftrightarrow>
     b \<in> set (books_book db)
     \<and> (if truthy (language rq)
         then \<exists>x \<in> set (languages_of db b). l = Some x
                \<and> (\<exists>c \<in> set (parse_comma_separated (language rq)). Language_code x = Some c)
         else l = None)
     \<and> (if truthy (mime_type rq)
         then \<exists>x \<in> set (formats_of db b). f = Some x
                \<and> (\<exists>m \<in> set (parse_comma_separated (mime_type rq)). Format_mime_type x = Some m)
         else f = None)
     \<and> by_book_id (book_id rq) b \<and> by_topic db (topic rq) b
     \<and> by_author db (author rq) b \<and> by_title (title rq) b"
proof -
  from assms obtain by_id where by_id: "book_id_filter (book_id rq) = Inr by_id"
    and joins: "join_languages q = truthy (language rq)"
      "join_formats q = truthy (mime_type rq)"
    and filters: "filters q = by_id @ language_filter (language rq)
        @ mime_type_filter (mime_type rq) @ topic_filter (topic rq)
        @ author_filter (author rq) @ title_filter (title rq)"
    by (rule build_query_Inr)
  have all: "(\<forall>c \<in> set (filters q). holds db (b, l, f) c = Some True) \<longleftrightarrow>
      by_book_id (book_id rq) b
      \<and> (truthy (language rq) \<longrightarrow> (\<exists>x c. l = Some x \<and> Language_code x = Some c
             \<and> c \<in> set (parse_comma_separated (language rq))))
      \<and> (truthy (mime_type rq) \<longrightarrow> (\<exists>x m. f = Some x \<and> Format_mime_type x = Some m
             \<and> m \<in> set (parse_comma_separated (mime_type rq))))
      \<and> by_topic db (topic rq) b \<and> by_author db (author rq) b \<and> by_title (title rq) b"
    unfolding filters set_append ball_Un
    unfolding book_id_clause [OF by_id] language_clause mime_type_clause topic_clause
      author_clause title_clause ..
  show ?thesis
    unfolding where_rows_iff from_rows_iff all joins by auto
qed

lemma distinct_books_iff:
  assumes "build_query rq = Inr q"
  shows "b \<in> set (distinct_books db q) \<longleftrightarrow> b \<in> set (books_book db) \<and> satisfies db rq b"
proof -
  have "b \<in> set (distinct_books db q) \<longleftrightarrow> (\<exists>l f. (b, l, f) \<in> set (where_rows db q))"
    by (force simp: distinct_books_def)
  also have "\<dots> \<longleftrightarrow> b \<in> set (books_book db) \<and> satisfies db rq b"
    unfolding where_rows_satisfies [OF assms] satisfies_def by_language_def by_mime_type_def
    by auto
  finally show ?thesis .
qed

subsection \<open>Pages\<close>

lemma list_all2_right_set:
  "list_all2 P xs ys \<Longrightarrow> y \<in> set ys \<Longrightarrow> \<exists>x \<in> set xs. P x y"
  by (induction rule: list_all2_induct) auto

lemma book_response_ids:
  "list_all2 (\<lambda>b br. book_response db b = Inr br) bs rs \<Longrightarrow>
     map BookResponse_id rs = map Book_id bs"
  by (induction rule: list_all2_induct) (auto dest: book_response_Inr)

lemma set_paginate: "set (paginate pg sz xs) \<subseteq> set xs"
  unfolding paginate_def Let_def
  using set_take_subset set_drop_subset by fast

lemma set_distinct_books: "set (distinct_books db q) = fst ` set (where_rows db q)"
  by (simp add: distinct_books_def)

lemma get_books_page:
  assumes "Inr r \<in> get_books db rq" and "build_query rq = Inr q"
  obtains ordered where
    "mset ordered = mset (distinct_books db q)" "sorted_wrt desc_before ordered"
    "BooksListResponse_count r = total_count db q"
    "list_all2 (\<lambda>b br. book_response db b = Inr br)
       (paginate (page rq) (page_size rq) ordered) (BooksListResponse_results r)"
proof -
  from assms(1) obtain q' ordered where q': "build_query rq = Inr q'"
    and ordered: "mset ordered = mset (distinct_books db q')" "sorted_wrt desc_before ordered"
    and r: "respond db rq (total_count db q') ordered = Inr r"
    by (rule get_books_Inr)
  from q' assms(2) have "q' = q" by simp
  with ordered respond_Inr [OF r] that show ?thesis by simp
qed

lemma no_filters_rows:
  assumes "build_query rq = Inr q" and "filters q = []"
  shows "set (distinct_books db q) = set (books_book db)"
proof -
  from assms(1) obtain by_id where
    joins: "join_languages q = truthy (language rq)" "join_formats q = truthy (mime_type rq)"
    and filters: "filters q = by_id @ language_filter (language rq)
        @ mime_type_filter (mime_type rq) @ topic_filter (topic rq)
        @ author_filter (author rq) @ title_filter (title rq)"
    by (rule build_query_Inr)
  from filters assms(2) have "language_filter (language rq) = []"
    "mime_type_filter (mime_type rq) = []" by simp_all
  then have "\<not> join_languages q" "\<not> join_formats q"
    unfolding joins by (auto simp: language_filter_def mime_type_filter_def split: if_splits)
  with assms(2) have "where_rows db q = map (\<lambda>b. (b, None, None)) (books_book db)"
    by (simp add: where_rows_def from_rows_def)
  then show ?thesis
    by (simp add: set_distinct_books image_image)
qed

lemma primary_key_unique:
  "primary_key db \<Longrightarrow> a \<in> set (books_book db) \<Longrightarrow> b \<in> set (books_book db) \<Longrightarrow>
     Book_id a = Book_id b \<Longrightarrow> a = b"
  by (auto simp: primary_key_def distinct_map dest: inj_onD)

lemma distinct_books_stored: "b \<in> set (distinct_books db q) \<Longrightarrow> b \<in> set (books_book db)"
  by (auto simp: set_distinct_books where_rows_iff from_rows_iff)

lemma build_query_window [simp]:
  "build_query (rq\<lparr>page := pg, page_size := sz\<rparr>) = build_query rq"
  by (simp add: build_query_def split: sum.splits)

lemma satisfies_window [simp]:
  "satisfies db (rq\<lparr>page := pg, page_size := sz\<rparr>) b = satisfies db rq b"
  by (simp add: satisfies_def)

lemma distinct_ids:
  assumes "primary_key db" and "mset ordered = mset (distinct_books db q)"
  shows "distinct (map Book_id ordered)"
proof -
  have "distinct (distinct_books db q)"
    by (simp add: distinct_books_def)
  with assms(2) have "distinct ordered"
    by (metis mset_eq_imp_distinct_iff)
  moreover have "set ordered \<subseteq> set (books_book db)"
    using assms(2) distinct_books_stored by (metis mset_eq_setD subsetI)
  moreover from assms(1) have "inj_on Book_id (set (books_book db))"
    by (simp add: primary_key_def distinct_map)
  ultimately show ?thesis
    by (simp add: distinct_map inj_on_subset)
qed

lemma those_map_None: "those (map f xs) = None \<longleftrightarrow> (\<exists>x \<in> set xs. f x = None)"
  by (induction xs) (auto split: option.splits)

subsection \<open>LIKE without wildcards\<close>

lemma like_percent_only: "like ''%'' s"
  by (induction s) simp_all

lemma like_percent:
  "like (CHR ''%'' # ps) s \<longleftrightarrow> (\<exists>u v. s = u @ v \<and> like ps v)"
proof (induction s)
  case Nil
  show ?case by simp
next
  case (Cons c cs)
  have "(\<exists>u v. c # cs = u @ v \<and> like ps v) \<longleftrightarrow>
          like ps (c # cs) \<or> (\<exists>u v. cs = u @ v \<and> like ps v)"
    by (auto simp: Cons_eq_append_conv)
  with Cons.IH show ?case by simp
qed

lemma like_plain:
  "no_wildcards p \<Longrightarrow> like (p @ ps) s \<longleftrightarrow> (\<exists>r. s = p @ r \<and> like ps r)"
proof (induction p arbitrary: s)
  case Nil
  show ?case by simp
next
  case (Cons c p)
  then have c: "c \<noteq> CHR ''%''" "c \<noteq> CHR ''_''" "c \<noteq> CHR 0x5C" and p: "no_wildcards p"
    by (auto simp: no_wildcards_def)
  show ?case
  proof (cases s)
    case Nil
    with c show ?thesis by simp
  next
    case (Cons d ds)
    with c Cons.IH [OF p, of ds] show ?thesis by auto
  qed
qed

lemma like_wrap_pattern:
  assumes "no_wildcards t"
  shows "like (wrap_pattern t) s \<longleftrightarrow> sublist t s"
proof -
  have "like (wrap_pattern t) s \<longleftrightarrow> (\<exists>u v. s = u @ v \<and> like (t @ ''%'') v)"
    by (simp add: wrap_pattern_def like_percent)
  also have "\<dots> \<longleftrightarrow> (\<exists>u r. s = u @ t @ r)"
    by (auto simp: like_plain [OF assms] like_percent_only)
  finally show ?thesis
    by (simp add: sublist_def)
qed

lemma lower_char_wildcard:
  "lower_char c = CHR ''%'' \<longleftrightarrow> c = CHR ''%''"
  "lower_char c = CHR ''_'' \<longleftrightarrow> c = CHR ''_''"
  "lower_char c = CHR 0x5C \<longleftrightarrow> c = CHR 0x5C"
  by (auto simp: lower_char_def split: if_splits)

lemma lower_no_wildcards: "no_wildcards t \<Longrightarrow> no_wildcards (lower t)"
  by (auto simp: no_wildcards_def lower_def) (metis lower_char_wildcard)+

lemma lower_wrap_pattern: "lower (wrap_pattern t) = wrap_pattern (lower t)"
  by (simp add: lower_def wrap_pattern_def lower_char_def)

lemma lower_like_contains:
  "no_wildcards t \<Longrightarrow> lower_like name (wrap_pattern t) = Some True \<longleftrightarrow> contains_ci t name"
  by (cases name)
    (simp_all add: lower_like_def contains_ci_def lower_wrap_pattern like_wrap_pattern
      lower_no_wildcards)

lemma topic_like_spec: "no_wildcards t \<Longrightarrow> topic_like db t b \<longleftrightarrow> spec_topic db t b"
  by (simp add: topic_like_def spec_topic_def lower_like_contains)

subsection \<open>Orderings\<close>

lemma sorted_wrt_unique:
  assumes "mset xs = mset ys" and "sorted_wrt R xs" and "sorted_wrt R ys"
    and "\<And>a b. a \<in> set xs \<Longrightarrow> b \<in> set xs \<Longrightarrow> R a b \<Longrightarrow> R b a \<Longrightarrow> a = b"
  shows "xs = ys"
  using assms
proof (induction xs arbitrary: ys)
  case Nil
  then show ?case by simp
next
  case (Cons a xs)
  from Cons.prems(1) obtain b ys' where ys: "ys = b # ys'"
    by (cases ys) auto
  have sets: "set (a # xs) = set (b # ys')"
    using Cons.prems(1) unfolding ys by (rule mset_eq_setD)
  have "a = b"
  proof (rule ccontr)
    assume neq: "a \<noteq> b"
    with sets have "a \<in> set ys'" "b \<in> set xs" by auto
    with Cons.prems(2,3) have "R b a" "R a b"
      unfolding ys by auto
    with Cons.prems(4) [of a b] \<open>b \<in> set xs\<close> neq show False by auto
  qed
  with Cons.prems(1) have "mset xs = mset ys'"
    unfolding ys by simp
  moreover from Cons.prems(2,3) have "sorted_wrt R xs" "sorted_wrt R ys'"
    unfolding ys by simp_all
  ultimately have "xs = ys'"
    using Cons.prems(4) by (intro Cons.IH) auto
  with \<open>a = b\<close> show ?case unfolding ys by simp
qed

lemma desc_before_antisym:
  "desc_before a b \<Longrightarrow> desc_before b a \<Longrightarrow> Book_download_count a = Book_download_count b"
  by (auto simp: desc_before_def split: option.splits)

lemma order_by_desc_unique:
  assumes "distinct (map Book_download_count rows)"
    and "mset xs = mset rows" and "sorted_wrt desc_before xs"
    and "mset ys = mset rows" and "sorted_wrt desc_before ys"
  shows "xs = ys"
proof (rule sorted_wrt_unique)
  show "mset xs = mset ys" using assms(2,4) by simp
  show "sorted_wrt desc_before xs" "sorted_wrt desc_before ys" by fact+
  fix a b assume "a \<in> set xs" "b \<in> set xs" "desc_before a b" "desc_before b a"
  then have "a \<in> set rows" "b \<in> set rows"
    "Book_download_count a = Book_download_count b"
    using assms(2) by (auto dest: mset_eq_setD desc_before_antisym)
  with assms(1) show "a = b"
    by (auto simp: distinct_map dest: inj_onD)
qed

lemma sorted_wrt_paginate:
  "sorted_wrt R xs \<Longrightarrow> sorted_wrt R (paginate pg sz xs)"
  by (simp add: paginate_def Let_def sorted_wrt_take sorted_wrt_drop)

lemma desc_before_key:
  "desc_before =
     (\<lambda>a b. map_option uminus (Book_download_count a)
              \<le> map_option uminus (Book_download_count b))"
  by (intro ext) (auto simp: desc_before_def split: option.splits)

lemma order_by_desc_exists: "\<exists>ordered. ordered \<in> set (order_by_desc rows)"
proof -
  let ?key = "\<lambda>b. map_option uminus (Book_download_count b)"
  have "sorted (map ?key (sort_key ?key rows))"
    by (rule sorted_sort_key)
  then have "sorted_wrt desc_before (sort_key ?key rows)"
    unfolding desc_before_key by (simp add: sorted_map)
  moreover have "mset (sort_key ?key rows) = mset rows"
    by simp
  ultimately show ?thesis
    unfolding order_by_desc_iff by blast
qed

lemma build_query_page [simp]: "build_query (rq\<lparr>page := pg\<rparr>) = build_query rq"
  by (simp add: build_query_def split: sum.splits)

lemma concat_pages:
  "concat (map (\<lambda>p. take s (drop ((p - 1) * s) xs)) [1..<Suc n]) = take (n * s) xs"
proof (induction n)
  case 0
  show ?case by simp
next
  case (Suc n)
  let ?f = "\<lambda>p. take s (drop ((p - 1) * s) xs)"
  have "concat (map ?f [1..<Suc (Suc n)]) = concat (map ?f [1..<Suc n]) @ ?f (Suc n)"
    by simp
  also have "\<dots> = take (n * s) xs @ take s (drop (n * s) xs)"
    using Suc by simp
  also have "\<dots> = take (n * s + s) xs"
    by (simp add: take_add)
  also have "n * s + s = Suc n * s"
    by simp
  finally show ?case .
qed

lemma paginate_nat:
  "1 \<le> pg \<Longrightarrow> 0 \<le> sz \<Longrightarrow>
     paginate pg sz xs = take (nat sz) (drop ((nat pg - 1) * nat sz) xs)"
  by (simp add: paginate_def Let_def nat_mult_distrib nat_diff_distrib)

lemma pages_reach_the_end:
  fixes len sz :: int
  assumes "0 < sz"
  shows "len \<le> (len + sz - 1) div sz * sz"
proof -
  have "(len + sz - 1) div sz * sz = (len + sz - 1) - (len + sz - 1) mod sz"
    by (simp add: algebra_simps minus_mod_eq_mult_div)
  moreover have "(len + sz - 1) mod sz \<le> sz - 1"
    using assms by (simp add: pos_mod_bound zle_diff1_eq)
  ultimately show ?thesis by simp
qed

lemma page_beyond_the_end:
  assumes "build_query rq = Inr q" and "1 \<le> page_size rq" and "page_size rq \<le> 100"
    and "1 \<le> p" and "total_count db q \<le> (p - 1) * page_size rq"
    and "(p - 1) * page_size rq < 2 ^ 63"
  shows "get_books db (rq\<lparr>page := p\<rparr>) =
           {Inr \<lparr>BooksListResponse_count = total_count db q,
                 BooksListResponse_results = [],
                 BooksListResponse_page = p,
                 BooksListResponse_total_pages =
                   (total_count db q + page_size rq - 1) div page_size rq\<rparr>}"
proof -
  let ?rows = "distinct_books db q"
  let ?r = "\<lparr>BooksListResponse_count = total_count db q,
             BooksListResponse_results = [],
             BooksListResponse_page = p,
             BooksListResponse_total_pages =
               (total_count db q + page_size rq - 1) div page_size rq\<rparr>"
  have "respond db (rq\<lparr>page := p\<rparr>) (total_count db q) ordered = Inr ?r"
    if "ordered \<in> set (order_by_desc ?rows)" for ordered
  proof -
    from that have "length ordered = length ?rows"
      unfolding order_by_desc_iff by (metis size_mset)
    with assms(5) have "length ordered \<le> nat ((p - 1) * page_size rq)"
      by (simp add: total_count_def)
    then have "paginate p (page_size rq) ordered = []"
      by (simp add: paginate_def Let_def)
    then show ?thesis
      by (simp add: respond_def)
  qed
  then have "(\<lambda>ordered. respond db (rq\<lparr>page := p\<rparr>) (total_count db q) ordered)
               ` set (order_by_desc ?rows) = {Inr ?r}"
    using order_by_desc_exists [of ?rows] by auto
  with assms(1-4,6) show ?thesis
    by (simp add: get_books_def)
qed

lemma page_of_the_ordering:
  assumes "primary_key db" and "build_query rq = Inr q"
    and "distinct (map Book_download_count (distinct_books db q))"
    and "mset ordered = mset (distinct_books db q)" and "sorted_wrt desc_before ordered"
    and "Inr r \<in> get_books db (rq\<lparr>page := int p\<rparr>)" and "1 \<le> p"
  shows "map BookResponse_id (BooksListResponse_results r) =
           take (nat (page_size rq))
             (drop ((p - 1) * nat (page_size rq)) (map Book_id ordered))"
proof -
  from assms(6) have size: "1 \<le> page_size rq"
    by (rule get_books_Inr) simp
  from assms(2) have "build_query (rq\<lparr>page := int p\<rparr>) = Inr q"
    by simp
  with assms(6) obtain ordered' where ordered': "mset ordered' = mset (distinct_books db q)"
      "sorted_wrt desc_before ordered'"
    and results: "list_all2 (\<lambda>b br. book_response db b = Inr br)
       (paginate (page (rq\<lparr>page := int p\<rparr>)) (page_size (rq\<lparr>page := int p\<rparr>)) ordered')
       (BooksListResponse_results r)"
    by (rule get_books_page)
  have "ordered' = ordered"
    using assms(3) ordered' assms(4,5) by (rule order_by_desc_unique)
  with results have "map BookResponse_id (BooksListResponse_results r) =
      map Book_id (paginate (int p) (page_size rq) ordered)"
    by (simp add: book_response_ids)
  also have "\<dots> = take (nat (page_size rq))
             (drop ((p - 1) * nat (page_size rq)) (map Book_id ordered))"
    using assms(7) size by (simp add: paginate_nat take_map drop_map)
  finally show ?thesis .
qed

lemma filters_empty_iff:
  assumes "build_query rq = Inr q"
  shows "filters q = [] \<longleftrightarrow>
           \<not> truthy (book_id rq) \<and> \<not> truthy (language rq) \<and> \<not> truthy (mime_type rq)
           \<and> parse_comma_separated (topic rq) = [] \<and> parse_comma_separated (author rq) = []
           \<and> parse_comma_separated (title rq) = []"
proof -
  from assms obtain by_id where by_id: "book_id_filter (book_id rq) = Inr by_id"
    and filters: "filters q = by_id @ language_filter (language rq)
        @ mime_type_filter (mime_type rq) @ topic_filter (topic rq)
        @ author_filter (author rq) @ title_filter (title rq)"
    by (rule build_query_Inr)
  from by_id have "by_id = [] \<longleftrightarrow> \<not> truthy (book_id rq)"
    by (auto simp: book_id_filter_def split: if_splits option.splits)
  moreover have "language_filter v = [] \<longleftrightarrow> \<not> truthy v"
    "mime_type_filter v = [] \<longleftrightarrow> \<not> truthy v" for v
    by (simp_all add: language_filter_def mime_type_filter_def)
  moreover have "topic_filter v = [] \<longleftrightarrow> parse_comma_separated v = []"
    "author_filter v = [] \<longleftrightarrow> parse_comma_separated v = []"
    "title_filter v = [] \<longleftrightarrow> parse_comma_separated v = []" for v
    using parse_falsy [of v]
    by (auto simp: topic_filter_def author_filter_def title_filter_def Let_def)
  ultimately show ?thesis
    unfolding filters by simp
qed

lemma get_books_outcome: "get_books db rq \<noteq> {}"
proof -
  have "set (order_by_desc rows) \<noteq> {}" for rows
    using order_by_desc_exists [of rows] by (metis emptyE)
  then show ?thesis
    by (simp add: get_books_def split: sum.splits)
qed

section \<open>The claims\<close>

text \<open>
  C1. The handler combines the conditions of \<open>filters\<close> with AND, and the tokens of
  one parameter with OR: by \<open>distinct_books_iff\<close> a stored book is among the
  matching books exactly when it satisfies all six predicates of \<open>satisfies\<close>. The
  second half of the claim fails on the code. In \<open>?language=,\<close> no parameter has a
  token, so no filter is active and every book should match; the handler tests the raw
  string, joins the languages and adds \<open>IN ()\<close> over the empty list, and the count is
  0 on a store of three books.
\<close>

theorem no_active_filter_counts_nothing:
  "parse_comma_separated (book_id comma_language) = []
   \<and> parse_comma_separated (language comma_language) = []
   \<and> parse_comma_separated (mime_type comma_language) = []
   \<and> parse_comma_separated (topic comma_language) = []
   \<and> parse_comma_separated (author comma_language) = []
   \<and> parse_comma_separated (title comma_language) = []
   \<and> build_query comma_language =
       Inr \<lparr>join_languages = True, join_formats = False, filters = [Language_code_in []]\<rparr>
   \<and> card (set (books_book sample_db)) = 3
   \<and> get_books sample_db comma_language = {Inr nothing_found}
   \<and> BooksListResponse_count nothing_found = 0"
  by code_simp

text \<open>
  C2. A parameter that holds separators only gives the empty token list. For \<open>topic\<close>
  (and \<open>author\<close>, \<open>title\<close>) the handler then adds no condition and the request
  is answered as if the parameter were absent. For \<open>book_id\<close>, \<open>language\<close> and
  \<open>mime_type\<close> it adds \<open>IN ()\<close> over the empty list, which no book satisfies: the
  request matches nothing, where the claim says it matches everything.
\<close>

theorem separators_only_matches_nothing:
  "parse_comma_separated None = [] \<and> parse_comma_separated (Some []) = []
   \<and> parse_comma_separated (Some '','') = [] \<and> parse_comma_separated (Some '' , '') = []
   \<and> get_books sample_db (no_filters\<lparr>book_id := Some '',''\<rparr>) = {Inr nothing_found}
   \<and> get_books sample_db (no_filters\<lparr>language := Some '',''\<rparr>) = {Inr nothing_found}
   \<and> get_books sample_db (no_filters\<lparr>mime_type := Some '',''\<rparr>) = {Inr nothing_found}
   \<and> get_books sample_db (no_filters\<lparr>topic := Some '',''\<rparr>) = get_books sample_db no_filters
   \<and> get_books sample_db no_filters =
       {Inr (all_books [moby_dick, war_and_peace, untitled]),
        Inr (all_books [moby_dick, untitled, war_and_peace])}"
  by code_simp

text \<open>
  C3, as the code has it. For every request with a valid \<open>page\<close> and \<open>page_size\<close>
  whose \<open>book_id\<close> has a token that does not parse as an integer, the handler raises
  \<open>ValueError\<close> whatever the store holds: no result list is returned and the token is
  not skipped. Nothing catches the exception, so the response is a server error (500),
  not a client error. \<open>bad_book_id_not_client_error\<close> is the request
  \<open>?book_id=abc\<close>, where the claim as stated fails.
\<close>

theorem bad_book_id_raises:
  assumes "1 \<le> page rq" and "1 \<le> page_size rq" and "page_size rq \<le> 100"
    and "t \<in> set (parse_comma_separated (book_id rq))" and "py_int t = None"
  shows "get_books db rq = {Inl ValueError}
         \<and> status_code (Inl ValueError) = 500 \<and> \<not> client_error (Inl ValueError)"
proof -
  from assms(4) have "parse_comma_separated (book_id rq) \<noteq> []" by auto
  then have "truthy (book_id rq)"
    using parse_falsy by blast
  moreover from assms(4,5) have "those (map py_int (parse_comma_separated (book_id rq))) = None"
    unfolding those_map_None by blast
  ultimately have "build_query rq = Inl ValueError"
    by (simp add: build_query_def book_id_filter_def)
  with assms(1-3) show ?thesis
    by (simp add: get_books_def client_error_def)
qed

theorem bad_book_id_raises_witness:
  "py_int ''1'' = Some 1 \<and> py_int ''abc'' = None
   \<and> get_books sample_db one_and_abc = {Inl ValueError}"
proof -
  have "1 \<le> page one_and_abc" "1 \<le> page_size one_and_abc" "page_size one_and_abc \<le> 100"
    by (simp_all add: one_and_abc_def no_filters_def)
  moreover have "''abc'' \<in> set (parse_comma_separated (book_id one_and_abc))"
    by code_simp
  moreover have abc: "py_int ''abc'' = None"
    by code_simp
  ultimately have "get_books sample_db one_and_abc = {Inl ValueError}"
    by (simp add: bad_book_id_raises)
  moreover have "py_int ''1'' = Some 1"
    by code_simp
  ultimately show ?thesis using abc by simp
qed

theorem bad_book_id_not_client_error:
  "get_books sample_db (no_filters\<lparr>book_id := Some ''abc''\<rparr>) = {Inl ValueError}
   \<and> \<not> client_error (Inl ValueError)"
  by code_simp

text \<open>
  C4, as the code has it. A topic token is matched with LIKE against \<open>%token%\<close>,
  so \<open>%\<close>, \<open>_\<close> and the backslash in a token are read as wildcards and escape. For
  tokens without these characters the claim holds: a book matches if and only if it
  matches the request without the topic filter and, for one of the tokens, one of its
  subjects or one of its bookshelves has a name that contains the token, letter case
  aside. In the witness the token \<open>BEST\<close> matches a bookshelf and no subject.
  \<open>underscore_topic_matches_any_name\<close> is the request \<open>?topic=_\<close>, where the claim
  as stated fails: both books with a subject or a bookshelf are returned, and neither
  has an underscore in such a name.
\<close>

theorem topic_filter_substring:
  assumes "build_query rq = Inr q" and "build_query (rq\<lparr>topic := None\<rparr>) = Inr q'"
    and "parse_comma_separated (topic rq) \<noteq> []"
    and "\<forall>t \<in> set (parse_comma_separated (topic rq)). no_wildcards t"
  shows "b \<in> set (distinct_books db q) \<longleftrightarrow>
           b \<in> set (distinct_books db q')
           \<and> (\<exists>t \<in> set (parse_comma_separated (topic rq)). spec_topic db t b)"
proof -
  have "by_topic db None b"
    by (simp add: by_topic_def parse_comma_separated_def)
  then have "satisfies db rq b \<longleftrightarrow>
      satisfies db (rq\<lparr>topic := None\<rparr>) b \<and> by_topic db (topic rq) b"
    by (auto simp: satisfies_def)
  moreover from assms(3,4) have "by_topic db (topic rq) b \<longleftrightarrow>
      (\<exists>t \<in> set (parse_comma_separated (topic rq)). spec_topic db t b)"
    by (auto simp: by_topic_def topic_like_spec)
  ultimately show ?thesis
    unfolding distinct_books_iff [OF assms(1)] distinct_books_iff [OF assms(2)] by blast
qed

theorem topic_filter_substring_witness:
  "war_and_peace_row \<in> set (distinct_books sample_db best_query)
   \<and> \<not> (\<exists>s \<in> set (subjects_of sample_db war_and_peace_row).
            contains_ci ''BEST'' (Subject_name s))
   \<and> (\<exists>s \<in> set (bookshelves_of sample_db war_and_peace_row).
            contains_ci ''BEST'' (Bookshelf_name s))"
proof -
  have tokens: "parse_comma_separated (topic best_topic) = [''whales'', ''BEST'']"
    by code_simp
  have "build_query best_topic = Inr best_query"
    "build_query (best_topic\<lparr>topic := None\<rparr>) = Inr no_query"
    "parse_comma_separated (topic best_topic) \<noteq> []"
    "\<forall>t \<in> set (parse_comma_separated (topic best_topic)). no_wildcards t"
    by code_simp+
  note iff = topic_filter_substring [OF this, of war_and_peace_row sample_db]
  have stored: "war_and_peace_row \<in> set (distinct_books sample_db no_query)"
    by code_simp
  have shelf: "\<exists>s \<in> set (bookshelves_of sample_db war_and_peace_row).
            contains_ci ''BEST'' (Bookshelf_name s)"
    by code_simp
  then have "spec_topic sample_db ''BEST'' war_and_peace_row"
    by (simp add: spec_topic_def)
  with stored have "war_and_peace_row \<in> set (distinct_books sample_db best_query)"
    unfolding iff tokens by simp
  moreover have "\<not> (\<exists>s \<in> set (subjects_of sample_db war_and_peace_row).
            contains_ci ''BEST'' (Subject_name s))"
    by code_simp
  ultimately show ?thesis using shelf by blast
qed

theorem underscore_topic_matches_any_name:
  "get_books sample_db (no_filters\<lparr>topic := Some ''_''\<rparr>) =
     {Inr \<lparr>BooksListResponse_count = 2,
           BooksListResponse_results = [moby_dick, war_and_peace],
           BooksListResponse_page = 1, BooksListResponse_total_pages = 1\<rparr>}
   \<and> \<not> spec_topic sample_db ''_'' moby_dick_row
   \<and> \<not> spec_topic sample_db ''_'' war_and_peace_row"
  by code_simp

text \<open>
  C5. For every request that is answered, the matching books are made distinct before
  they are counted and before the page is cut: no book id stands twice in \<open>results\<close>,
  \<open>count\<close> is the number of distinct books of the store that satisfy the filters (in
  the witness four joined rows give a count of three), and the count is the same for
  every \<open>page\<close> and \<open>page_size\<close>.
\<close>

theorem books_counted_once:
  assumes "primary_key db" and "Inr r \<in> get_books db rq" and "build_query rq = Inr q"
  shows "distinct (map BookResponse_id (BooksListResponse_results r))
         \<and> BooksListResponse_count r =
             int (card {b \<in> set (books_book db). satisfies db rq b})
         \<and> (\<forall>pg sz r'. Inr r' \<in> get_books db (rq\<lparr>page := pg, page_size := sz\<rparr>) \<longrightarrow>
               BooksListResponse_count r' = BooksListResponse_count r)"
proof (intro conjI allI impI)
  from assms(2,3) obtain ordered where ordered: "mset ordered = mset (distinct_books db q)"
    and count: "BooksListResponse_count r = total_count db q"
    and results: "list_all2 (\<lambda>b br. book_response db b = Inr br)
       (paginate (page rq) (page_size rq) ordered) (BooksListResponse_results r)"
    by (rule get_books_page)
  have "map BookResponse_id (BooksListResponse_results r) =
          map Book_id (paginate (page rq) (page_size rq) ordered)"
    using results by (rule book_response_ids)
  also have "\<dots> = paginate (page rq) (page_size rq) (map Book_id ordered)"
    by (simp add: paginate_def Let_def take_map drop_map)
  finally show "distinct (map BookResponse_id (BooksListResponse_results r))"
    using distinct_ids [OF assms(1) ordered] by (simp add: paginate_def Let_def)
  have "set (distinct_books db q) = {b \<in> set (books_book db). satisfies db rq b}"
    using distinct_books_iff [OF assms(3)] by blast
  then have "length (distinct_books db q) = card {b \<in> set (books_book db). satisfies db rq b}"
    by (metis distinct_books_def distinct_card distinct_remdups)
  with count show "BooksListResponse_count r =
      int (card {b \<in> set (books_book db). satisfies db rq b})"
    by (simp add: total_count_def)
  fix pg sz r'
  assume "Inr r' \<in> get_books db (rq\<lparr>page := pg, page_size := sz\<rparr>)"
  moreover from assms(3) have "build_query (rq\<lparr>page := pg, page_size := sz\<rparr>) = Inr q"
    by simp
  ultimately have "BooksListResponse_count r' = total_count db q"
    by (rule get_books_page)
  with count show "BooksListResponse_count r' = BooksListResponse_count r" by simp
qed

theorem books_counted_once_witness:
  "length (where_rows sample_db en_fr_query) = 4
   \<and> BooksListResponse_count en_fr_first_page = 3
   \<and> distinct (map BookResponse_id (BooksListResponse_results en_fr_first_page))
   \<and> card {b \<in> set (books_book sample_db). satisfies sample_db en_fr_by_two b} = 3
   \<and> Inr \<lparr>BooksListResponse_count = 3, BooksListResponse_results = [],
           BooksListResponse_page = 4, BooksListResponse_total_pages = 3\<rparr>
       \<in> get_books sample_db (en_fr_by_two\<lparr>page := 4, page_size := 1\<rparr>)"
proof -
  note facts = books_counted_once [OF sample_primary_key en_fr_outcome en_fr_build]
  have rows: "length (where_rows sample_db en_fr_query) = 4"
    by code_simp
  have count: "BooksListResponse_count en_fr_first_page = 3"
    by (simp add: en_fr_first_page_def)
  have other: "Inr \<lparr>BooksListResponse_count = 3, BooksListResponse_results = [],
           BooksListResponse_page = 4, BooksListResponse_total_pages = 3\<rparr>
       \<in> get_books sample_db (en_fr_by_two\<lparr>page := 4, page_size := 1\<rparr>)"
    by code_simp
  from facts count have "card {b \<in> set (books_book sample_db). satisfies sample_db en_fr_by_two b} = 3"
    by simp
  with facts rows count other show ?thesis by blast
qed

text \<open>
  C6, as the code has it. Every page is a request of its own, and the store orders each
  answer anew. For fixed filters and a fixed \<open>page_size\<close>, when no two matching
  books have the same \<open>download_count\<close>, the \<open>results\<close> of pages 1 to
  \<open>total_pages\<close>, one after the other, are the distinct matching books, each once,
  in descending \<open>download_count\<close> order. A page beyond the matching books, with an
  offset below \<open>2 ^ 63\<close>, has exactly one outcome on every store: the empty result
  list, with \<open>count\<close> and \<open>total_pages\<close> as on every other page.
  \<open>equal_download_counts_repeat_a_book\<close> is the sample store by one book a page,
  where the claim as stated fails: two books have 50 downloads, page 2 and page 3 may
  both return the same one of them, and the other is then on no page; and page
  \<open>2 ^ 63 + 1\<close>, beyond the three books, is an error of the store and not an empty
  list.
\<close>

theorem pages_cover_the_matches:
  assumes "build_query rq = Inr q" and "1 \<le> page_size rq" and "page_size rq \<le> 100"
  shows "(primary_key db \<and> distinct (map Book_download_count (distinct_books db q))
            \<and> int n = (total_count db q + page_size rq - 1) div page_size rq
            \<and> (\<forall>p \<in> {1..n}. Inr (answer p) \<in> get_books db (rq\<lparr>page := int p\<rparr>))
          \<longrightarrow> (\<exists>ordered. mset ordered = mset (distinct_books db q)
                  \<and> sorted_wrt desc_before ordered \<and> distinct (map Book_id ordered)
                  \<and> map BookResponse_id
                       (concat (map (\<lambda>p. BooksListResponse_results (answer p)) [1..<Suc n]))
                     = map Book_id ordered))
         \<and> (\<forall>p. 1 \<le> p \<and> total_count db q \<le> (p - 1) * page_size rq
                \<and> (p - 1) * page_size rq < 2 ^ 63 \<longrightarrow>
               get_books db (rq\<lparr>page := p\<rparr>) =
                 {Inr \<lparr>BooksListResponse_count = total_count db q,
                       BooksListResponse_results = [],
                       BooksListResponse_page = p,
                       BooksListResponse_total_pages =
                         (total_count db q + page_size rq - 1) div page_size rq\<rparr>})"
proof (intro conjI impI allI)
  fix p assume "1 \<le> p \<and> total_count db q \<le> (p - 1) * page_size rq
                  \<and> (p - 1) * page_size rq < 2 ^ 63"
  with assms show "get_books db (rq\<lparr>page := p\<rparr>) =
                 {Inr \<lparr>BooksListResponse_count = total_count db q,
                       BooksListResponse_results = [],
                       BooksListResponse_page = p,
                       BooksListResponse_total_pages =
                         (total_count db q + page_size rq - 1) div page_size rq\<rparr>}"
    by (simp add: page_beyond_the_end)
next
  assume given: "primary_key db \<and> distinct (map Book_download_count (distinct_books db q))
            \<and> int n = (total_count db q + page_size rq - 1) div page_size rq
            \<and> (\<forall>p \<in> {1..n}. Inr (answer p) \<in> get_books db (rq\<lparr>page := int p\<rparr>))"
  then have pk: "primary_key db"
    and keys: "distinct (map Book_download_count (distinct_books db q))"
    and n: "int n = (total_count db q + page_size rq - 1) div page_size rq"
    and answers: "\<And>p. 1 \<le> p \<Longrightarrow> p \<le> n \<Longrightarrow>
                    Inr (answer p) \<in> get_books db (rq\<lparr>page := int p\<rparr>)"
    by simp_all
  obtain ordered where ordered: "mset ordered = mset (distinct_books db q)"
      "sorted_wrt desc_before ordered"
    using order_by_desc_exists [of "distinct_books db q"] unfolding order_by_desc_iff by blast
  let ?s = "nat (page_size rq)"
  let ?ids = "map Book_id ordered"
  have "map BookResponse_id
          (concat (map (\<lambda>p. BooksListResponse_results (answer p)) [1..<Suc n]))
        = concat (map (\<lambda>p. map BookResponse_id (BooksListResponse_results (answer p)))
            [1..<Suc n])"
    by (simp add: map_concat comp_def)
  also have "\<dots> = concat (map (\<lambda>p. take ?s (drop ((p - 1) * ?s) ?ids)) [1..<Suc n])"
  proof -
    have "map (\<lambda>p. map BookResponse_id (BooksListResponse_results (answer p))) [1..<Suc n]
          = map (\<lambda>p. take ?s (drop ((p - 1) * ?s) ?ids)) [1..<Suc n]"
    proof (rule map_cong [OF refl])
      fix p assume "p \<in> set [1..<Suc n]"
      then have p: "1 \<le> p" "p \<le> n" by auto
      from pk assms(1) keys ordered answers [OF p] p(1)
      show "map BookResponse_id (BooksListResponse_results (answer p)) =
              take ?s (drop ((p - 1) * ?s) ?ids)"
        by (rule page_of_the_ordering)
    qed
    then show ?thesis by (rule arg_cong)
  qed
  also have "\<dots> = take (n * ?s) ?ids"
    by (rule concat_pages)
  also have "\<dots> = ?ids"
  proof -
    have "int (length ordered) = total_count db q"
      using ordered(1) by (metis total_count_def size_mset)
    moreover have "total_count db q \<le> int n * page_size rq"
      unfolding n using assms(2) by (intro pages_reach_the_end) simp
    moreover have "int (n * ?s) = int n * page_size rq"
      using assms(2) by simp
    ultimately have "int (length ordered) \<le> int (n * ?s)"
      by (simp only:)
    then have "length ordered \<le> n * ?s"
      by (simp only: of_nat_le_iff)
    then show ?thesis by simp
  qed
  finally have "map BookResponse_id
          (concat (map (\<lambda>p. BooksListResponse_results (answer p)) [1..<Suc n])) = ?ids" .
  moreover have "distinct ?ids"
    using pk ordered(1) by (rule distinct_ids)
  ultimately show "\<exists>ordered. mset ordered = mset (distinct_books db q)
                  \<and> sorted_wrt desc_before ordered \<and> distinct (map Book_id ordered)
                  \<and> map BookResponse_id
                       (concat (map (\<lambda>p. BooksListResponse_results (answer p)) [1..<Suc n]))
                     = map Book_id ordered"
    using ordered by blast
qed

theorem pages_cover_the_matches_witness:
  "map BookResponse_id (BooksListResponse_results (en_page 1) @ BooksListResponse_results (en_page 2))
     = [1, 3]
   \<and> total_count sample_db en_query = 2
   \<and> get_books sample_db (en_by_one\<lparr>page := 3\<rparr>) =
       {Inr \<lparr>BooksListResponse_count = 2, BooksListResponse_results = [],
             BooksListResponse_page = 3, BooksListResponse_total_pages = 2\<rparr>}"
proof -
  have build: "build_query en_by_one = Inr en_query"
    and size: "1 \<le> page_size en_by_one" "page_size en_by_one \<le> 100"
    by code_simp+
  note both = pages_cover_the_matches [OF build size, of sample_db 2 en_page]
  have keys: "distinct (map Book_download_count (distinct_books sample_db en_query))"
    by code_simp
  have count: "total_count sample_db en_query = 2"
    by code_simp
  have pages: "int 2 = (total_count sample_db en_query + page_size en_by_one - 1)
                 div page_size en_by_one"
    by code_simp
  have first: "Inr (en_page 1) \<in> get_books sample_db (en_by_one\<lparr>page := int 1\<rparr>)"
    by code_simp
  have second: "Inr (en_page 2) \<in> get_books sample_db (en_by_one\<lparr>page := int 2\<rparr>)"
    by code_simp
  have "\<forall>p \<in> {1..2}. Inr (en_page p) \<in> get_books sample_db (en_by_one\<lparr>page := int p\<rparr>)"
  proof
    fix p :: nat assume "p \<in> {1..2}"
    then have "p = 1 \<or> p = 2" by auto
    with first second
    show "Inr (en_page p) \<in> get_books sample_db (en_by_one\<lparr>page := int p\<rparr>)"
      by auto
  qed
  with both sample_primary_key keys pages
  obtain ordered where ordered: "mset ordered = mset (distinct_books sample_db en_query)"
      "sorted_wrt desc_before ordered"
      "map BookResponse_id
         (concat (map (\<lambda>p. BooksListResponse_results (en_page p)) [1..<Suc 2]))
       = map Book_id ordered"
    by blast
  have "[1..<Suc 2] = [1, 2]"
    by code_simp
  then have "map BookResponse_id
      (BooksListResponse_results (en_page 1) @ BooksListResponse_results (en_page 2))
    = map Book_id ordered"
    using ordered(3) by simp
  moreover have "ordered = [moby_dick_row, untitled_row]"
  proof (rule order_by_desc_unique [OF keys ordered(1,2)])
    show "mset [moby_dick_row, untitled_row] = mset (distinct_books sample_db en_query)"
      by code_simp
    show "sorted_wrt desc_before [moby_dick_row, untitled_row]"
      by code_simp
  qed
  ultimately have ids: "map BookResponse_id
      (BooksListResponse_results (en_page 1) @ BooksListResponse_results (en_page 2)) = [1, 3]"
    by (simp add: moby_dick_row_def untitled_row_def)
  have "(1::int) \<le> 3 \<and> total_count sample_db en_query \<le> (3 - 1) * page_size en_by_one
          \<and> (3 - 1) * page_size en_by_one < 2 ^ 63"
    by code_simp
  with both have "get_books sample_db (en_by_one\<lparr>page := 3\<rparr>) =
       {Inr \<lparr>BooksListResponse_count = total_count sample_db en_query,
             BooksListResponse_results = [],
             BooksListResponse_page = 3,
             BooksListResponse_total_pages =
               (total_count sample_db en_query + page_size en_by_one - 1)
                 div page_size en_by_one\<rparr>}"
    by blast
  moreover have "(total_count sample_db en_query + page_size en_by_one - 1)
                 div page_size en_by_one = 2"
    by code_simp
  ultimately show ?thesis using ids count by simp
qed

theorem equal_download_counts_repeat_a_book:
  "Inr (one_of_three 1 moby_dick) \<in> get_books sample_db (by_one 1)
   \<and> Inr (one_of_three 2 war_and_peace) \<in> get_books sample_db (by_one 2)
   \<and> Inr (one_of_three 3 war_and_peace) \<in> get_books sample_db (by_one 3)
   \<and> map BookResponse_id
       (BooksListResponse_results (one_of_three 1 moby_dick)
        @ BooksListResponse_results (one_of_three 2 war_and_peace)
        @ BooksListResponse_results (one_of_three 3 war_and_peace)) = [1, 2, 2]
   \<and> get_books sample_db (by_one 9223372036854775809) = {Inl DataError}"
  by code_simp

text \<open>
  C7. For every request that is answered, \<open>total_pages\<close> is the count divided by the
  page size and rounded up, \<open>ceil(count / page_size)\<close>; and a count of 0 gives 0
  pages.
\<close>

theorem total_pages_ceiling:
  assumes "Inr r \<in> get_books db rq"
  shows "BooksListResponse_total_pages r =
           \<lceil>real_of_int (BooksListResponse_count r) / real_of_int (page_size rq)\<rceil>
         \<and> (BooksListResponse_count r = 0 \<longrightarrow> BooksListResponse_total_pages r = 0)"
proof -
  from assms obtain q ordered where size: "1 \<le> page_size rq"
    and r: "respond db rq (total_count db q) ordered = Inr r"
    by (rule get_books_Inr)
  from respond_Inr [OF r]
  have pages: "BooksListResponse_total_pages r =
                 (BooksListResponse_count r + page_size rq - 1) div page_size rq"
    by simp
  from size have "0 < page_size rq" by simp
  then have "BooksListResponse_total_pages r =
               \<lceil>real_of_int (BooksListResponse_count r) / real_of_int (page_size rq)\<rceil>"
    unfolding pages by (rule ceil_div)
  moreover have "BooksListResponse_total_pages r = 0" if "BooksListResponse_count r = 0"
    using that size pages by (simp add: div_pos_pos_trivial)
  ultimately show ?thesis by blast
qed

theorem total_pages_ceiling_witness:
  "Inr en_fr_first_page \<in> get_books sample_db en_fr_by_two
   \<and> BooksListResponse_total_pages en_fr_first_page = \<lceil>real_of_int 3 / real_of_int 2\<rceil>
   \<and> BooksListResponse_total_pages en_fr_first_page = 2"
proof -
  have "page_size en_fr_by_two = 2" "BooksListResponse_count en_fr_first_page = 3"
    by (simp_all add: en_fr_by_two_def no_filters_def en_fr_first_page_def)
  with total_pages_ceiling [OF en_fr_outcome] en_fr_outcome show ?thesis
    by (simp add: en_fr_first_page_def)
qed

text \<open>
  C8, as the code has it. For every request that is answered, \<open>results\<close> is the
  projection of a list of stored books that descends in \<open>download_count\<close>. The query
  has no second sort key, so the order among books with equal \<open>download_count\<close> is
  the store's to choose; when no two matching books have the same \<open>download_count\<close>
  the request has exactly one outcome. \<open>equal_download_counts_either_order\<close> is the
  request without parameters on the sample store, which has two outcomes that differ in
  the order of \<open>results\<close>.
\<close>

theorem results_sorted_descending:
  assumes "Inr r \<in> get_books db rq" and "build_query rq = Inr q"
  shows "(\<exists>bs. sorted_wrt desc_before bs \<and> set bs \<subseteq> set (books_book db)
            \<and> list_all2 (\<lambda>b br. book_response db b = Inr br) bs (BooksListResponse_results r))
         \<and> (distinct (map Book_download_count (distinct_books db q)) \<longrightarrow>
              get_books db rq = {Inr r})"
proof (intro conjI impI)
  from assms(1) obtain q' ordered where window: "1 \<le> page rq" "1 \<le> page_size rq"
      "page_size rq \<le> 100" "(page rq - 1) * page_size rq < 2 ^ 63"
    and q': "build_query rq = Inr q'"
    and ordered: "mset ordered = mset (distinct_books db q')" "sorted_wrt desc_before ordered"
    and r: "respond db rq (total_count db q') ordered = Inr r"
    by (rule get_books_Inr)
  from q' assms(2) have [simp]: "q' = q" by simp
  let ?bs = "paginate (page rq) (page_size rq) ordered"
  have "set ?bs \<subseteq> set (books_book db)"
    using set_paginate [of "page rq" "page_size rq" ordered] ordered(1) distinct_books_stored
    by (metis mset_eq_setD subset_iff)
  moreover have "sorted_wrt desc_before ?bs"
    using ordered(2) by (rule sorted_wrt_paginate)
  moreover have "list_all2 (\<lambda>b br. book_response db b = Inr br) ?bs (BooksListResponse_results r)"
    using respond_Inr [OF r] by simp
  ultimately show "\<exists>bs. sorted_wrt desc_before bs \<and> set bs \<subseteq> set (books_book db)
      \<and> list_all2 (\<lambda>b br. book_response db b = Inr br) bs (BooksListResponse_results r)"
    by blast
  assume keys: "distinct (map Book_download_count (distinct_books db q))"
  have "set (order_by_desc (distinct_books db q)) = {ordered}"
    using ordered order_by_desc_unique [OF keys]
    by (auto simp: order_by_desc_iff)
  with window assms(2) r show "get_books db rq = {Inr r}"
    by (simp add: get_books_def)
qed

theorem results_sorted_descending_witness:
  "distinct (map Book_download_count (distinct_books sample_db en_query))
   \<and> get_books sample_db en_only = {Inr en_books}"
proof -
  have outcome: "Inr en_books \<in> get_books sample_db en_only"
    by code_simp
  have build: "build_query en_only = Inr en_query"
    by code_simp
  have keys: "distinct (map Book_download_count (distinct_books sample_db en_query))"
    by code_simp
  with results_sorted_descending [OF outcome build] show ?thesis by blast
qed

theorem equal_download_counts_either_order:
  "Inr (all_books [moby_dick, war_and_peace, untitled]) \<in> get_books sample_db no_filters
   \<and> Inr (all_books [moby_dick, untitled, war_and_peace]) \<in> get_books sample_db no_filters
   \<and> BooksListResponse_results (all_books [moby_dick, war_and_peace, untitled])
       \<noteq> BooksListResponse_results (all_books [moby_dick, untitled, war_and_peace])"
  by code_simp

text \<open>
  C9. With a language filter in the request, a book matches if and only if it matches
  the request without that filter and has an associated language whose code is equal,
  character by character, to one of the tokens. In the witness the English book is
  found by \<open>en\<close> and not by \<open>EN\<close>.
\<close>

theorem language_filter_exact:
  assumes "truthy (language rq)" and "build_query rq = Inr q"
    and "build_query (rq\<lparr>language := None\<rparr>) = Inr q'"
  shows "b \<in> set (distinct_books db q) \<longleftrightarrow>
           b \<in> set (distinct_books db q')
           \<and> (\<exists>l \<in> set (languages_of db b). \<exists>c \<in> set (parse_comma_separated (language rq)).
                 Language_code l = Some c)"
proof -
  have "by_language db None b"
    by (simp add: by_language_def truthy_def)
  then have "satisfies db rq b \<longleftrightarrow>
      satisfies db (rq\<lparr>language := None\<rparr>) b \<and> by_language db (language rq) b"
    by (auto simp: satisfies_def)
  with assms(1) show ?thesis
    unfolding distinct_books_iff [OF assms(2)] distinct_books_iff [OF assms(3)]
    by (auto simp: by_language_def)
qed

theorem language_filter_exact_witness:
  "moby_dick_row \<in> set (distinct_books sample_db en_query)
   \<and> moby_dick_row \<notin> set (distinct_books sample_db upper_query)"
proof -
  have stored: "moby_dick_row \<in> set (distinct_books sample_db no_query)"
    by code_simp
  have en: "\<exists>l \<in> set (languages_of sample_db moby_dick_row).
              \<exists>c \<in> set (parse_comma_separated (Some ''en'')). Language_code l = Some c"
    by code_simp
  have upper: "\<not> (\<exists>l \<in> set (languages_of sample_db moby_dick_row).
              \<exists>c \<in> set (parse_comma_separated (Some ''EN'')). Language_code l = Some c)"
    by code_simp
  have "truthy (language (no_filters\<lparr>language := Some ''en''\<rparr>))"
    "build_query (no_filters\<lparr>language := Some ''en''\<rparr>) = Inr en_query"
    "build_query (no_filters\<lparr>language := Some ''en'', language := None\<rparr>) = Inr no_query"
    by code_simp+
  from language_filter_exact [OF this, of moby_dick_row sample_db] stored en
  have first: "moby_dick_row \<in> set (distinct_books sample_db en_query)"
    by simp
  have "truthy (language (no_filters\<lparr>language := Some ''EN''\<rparr>))"
    "build_query (no_filters\<lparr>language := Some ''EN''\<rparr>) = Inr upper_query"
    "build_query (no_filters\<lparr>language := Some ''EN'', language := None\<rparr>) = Inr no_query"
    by code_simp+
  from language_filter_exact [OF this, of moby_dick_row sample_db] upper
  have "moby_dick_row \<notin> set (distinct_books sample_db upper_query)"
    by simp
  with first show ?thesis by simp
qed

text \<open>
  C10. For every returned book whose stored title is the empty string, the \<open>title\<close>
  of the response is the string \<open>Unknown\<close>.
\<close>

theorem empty_title_is_unknown:
  assumes "primary_key db" and "Inr r \<in> get_books db rq"
    and "br \<in> set (BooksListResponse_results r)"
    and "b \<in> set (books_book db)" and "Book_id b = BookResponse_id br"
    and "Book_title b = Some []"
  shows "BookResponse_title br = ''Unknown''"
proof -
  from assms(2) obtain q where q: "build_query rq = Inr q"
    by (rule get_books_Inr)
  with assms(2) obtain ordered where ordered: "mset ordered = mset (distinct_books db q)"
    and results: "list_all2 (\<lambda>b br. book_response db b = Inr br)
       (paginate (page rq) (page_size rq) ordered) (BooksListResponse_results r)"
    by (rule get_books_page)
  from results assms(3) obtain b' where b': "b' \<in> set (paginate (page rq) (page_size rq) ordered)"
    and br: "book_response db b' = Inr br"
    by (blast dest: list_all2_right_set)
  from b' set_paginate have "b' \<in> set ordered" by fast
  with ordered have "b' \<in> set (distinct_books db q)"
    by (metis mset_eq_setD)
  then have "b' \<in> set (books_book db)"
    by (rule distinct_books_stored)
  moreover from br assms(5) have "Book_id b' = Book_id b"
    by (simp add: book_response_Inr)
  ultimately have "b' = b"
    using assms(1,4) by (blast intro: primary_key_unique)
  with br assms(6) show ?thesis
    by (simp add: book_response_Inr title_or_unknown_def)
qed

theorem empty_title_is_unknown_witness:
  "Book_title untitled_row = Some [] \<and> BookResponse_title untitled = ''Unknown''"
proof -
  have "untitled \<in> set (BooksListResponse_results en_fr_first_page)"
    by (simp add: en_fr_first_page_def)
  moreover have "untitled_row \<in> set (books_book sample_db)"
    by (simp add: sample_db_def)
  moreover have "Book_id untitled_row = BookResponse_id untitled"
    by (simp add: untitled_row_def untitled_def)
  moreover have title: "Book_title untitled_row = Some []"
    by (simp add: untitled_row_def)
  ultimately have "BookResponse_title untitled = ''Unknown''"
    by (rule empty_title_is_unknown [OF sample_primary_key en_fr_outcome])
  with title show ?thesis by simp
qed

end
